theory Spec2Isabelle
  imports Main "HOL-Library.Char_ord" "HOL-Library.List_Lexorder"
begin

section \<open>Server: rows of the schedule store and of the device registry\<close>

text \<open>
  Modelled from the spec: the rows of ScheduleItem (alarm, medicine, meeting) and of
  DeviceEndpoint. The table declarations (\<^verbatim>\<open>@shared/schema\<close>) are imported by the scheduler
  and the push dispatcher but are not among the sources, so the records below carry the
  columns of the spec's data model under the names by which the two modules read them. A
  column the code tests for null or emptiness before use (\<^verbatim>\<open>alarm.date\<close>,
  \<^verbatim>\<open>alarm.days\<close>, \<^verbatim>\<open>medicine.times\<close>, \<^verbatim>\<open>textToSpeak\<close>, \<^verbatim>\<open>dosage\<close>,
  \<^verbatim>\<open>location\<close>) is optional here; the rows a client holds are these rows as the API
  returns them.
\<close>

record alarm =
  alarm_id :: int
  alarm_userId :: string
  alarm_title :: string
  alarm_time :: string
  alarm_date :: "string option"
  alarm_days :: "string list option"
  alarm_isActive :: bool
  alarm_textToSpeak :: "string option"

record medicine =
  med_id :: int
  med_userId :: string
  med_name :: string
  med_times :: "string list option"
  med_isActive :: bool
  med_textToSpeak :: "string option"
  med_dosage :: "string option"

record meeting =
  meeting_id :: int
  meeting_userId :: string
  meeting_title :: string
  meeting_date :: string
  meeting_time :: string
  meeting_enabled :: bool
  meeting_location :: "string option"
  meeting_textToSpeak :: "string option"

text \<open>A row of \<^verbatim>\<open>push_subscriptions\<close>; \<^verbatim>\<open>id\<close> is the serial primary key.\<close>

record push_subscription =
  sub_id :: int
  sub_userId :: string
  sub_endpoint :: string
  sub_p256dh :: string
  sub_auth :: string
  sub_platform :: "string option"
  sub_deviceType :: "string option"
  sub_deviceName :: "string option"
  sub_supportsFullScreen :: bool

datatype kind = Alarm | Medicine | Meeting

fun kind_str :: "kind \<Rightarrow> string" where
  "kind_str Alarm = ''alarm''"
| "kind_str Medicine = ''medicine''"
| "kind_str Meeting = ''meeting''"

text \<open>\<^verbatim>\<open>PushPayload\<close>, with the fields the scheduler fills in.\<close>

record push_payload =
  pp_title :: string
  pp_body :: string
  pp_type :: kind
  pp_id :: "int option"
  pp_textToSpeak :: "string option"

text \<open>
  JavaScript's \<^verbatim>\<open>a || b\<close> on an optional string: \<^verbatim>\<open>null\<close>, \<^verbatim>\<open>undefined\<close> and the
  empty string are falsy.
\<close>

fun truthy :: "string option \<Rightarrow> bool" where
  "truthy None = False"
| "truthy (Some s) = (s \<noteq> [])"

definition or_else :: "string option \<Rightarrow> string \<Rightarrow> string" where
  "or_else a b = (case a of Some s \<Rightarrow> (if s \<noteq> [] then s else b) | None \<Rightarrow> b)"

definition or_undefined :: "string option \<Rightarrow> string option" where
  "or_undefined a = (if truthy a then a else None)"

section \<open>Server: the environment of one scheduling tick\<close>

text \<open>
  The outcome of one \<^verbatim>\<open>webPush.sendNotification\<close> call: it resolves, or it throws an error
  whose \<^verbatim>\<open>statusCode\<close> is the HTTP status of the push service (absent for a timeout or a
  network error).
\<close>

datatype send_outcome = Sent | Threw "int option"

text \<open>The database operations the two modules await; each of them may reject.\<close>

datatype db_op =
    SelectAlarms
  | SelectMedicines
  | SelectMeetings
  | SelectSubscriptions string
  | DeleteSubscription int

datatype error = DbError db_op

record env =
  webPush_sendNotification :: "push_subscription \<Rightarrow> push_payload \<Rightarrow> send_outcome"
  db_rejects :: "db_op \<Rightarrow> bool"

text \<open>
  The server state: the four tables, the delivery attempts made so far (one entry per call of
  \<^verbatim>\<open>webPush.sendNotification\<close>, oldest first), the scheduler's
  \<^verbatim>\<open>[Scheduler] Triggering ...\<close> lines (kind and id of the item, written just before
  the item is handed to the dispatcher) and the errors written by its \<^verbatim>\<open>console.error\<close>.
\<close>

record server =
  alarms :: "alarm list"
  medicines :: "medicine list"
  meetings :: "meeting list"
  pushSubscriptions :: "push_subscription list"
  attempts :: "(push_subscription \<times> push_payload) list"
  triggerLog :: "(kind \<times> int) list"
  errorLog :: "error list"

section \<open>Server: sendPushNotification\<close>

record push_counts =
  success :: nat
  failed :: nat

text \<open>
  The loop over the subscriptions that were selected before the loop started. A delivery that
  throws is counted as failed; when its status code is 410 or 404 the row with that id is
  deleted. The delete is awaited inside the \<^verbatim>\<open>catch\<close> block, so a rejected delete leaves the
  function with that error.
\<close>

fun send_loop ::
  "env \<Rightarrow> push_payload \<Rightarrow> push_subscription list \<Rightarrow> push_counts \<Rightarrow> server
    \<Rightarrow> (error + push_counts) \<times> server" where
  "send_loop e p [] c s = (Inr c, s)"
| "send_loop e p (sub # subs) c s =
     (let s1 = s\<lparr>attempts := attempts s @ [(sub, p)]\<rparr> in
      case webPush_sendNotification e sub p of
        Sent \<Rightarrow> send_loop e p subs (c\<lparr>success := success c + 1\<rparr>) s1
      | Threw statusCode \<Rightarrow>
          (let c1 = c\<lparr>failed := failed c + 1\<rparr> in
           if statusCode = Some 410 \<or> statusCode = Some 404 then
             (if db_rejects e (DeleteSubscription (sub_id sub))
              then (Inl (DbError (DeleteSubscription (sub_id sub))), s1)
              else send_loop e p subs c1
                     (s1\<lparr>pushSubscriptions :=
                           filter (\<lambda>r. sub_id r \<noteq> sub_id sub) (pushSubscriptions s1)\<rparr>))
           else send_loop e p subs c1 s1))"

definition sendPushNotification ::
  "env \<Rightarrow> string \<Rightarrow> push_payload \<Rightarrow> server \<Rightarrow> (error + push_counts) \<times> server" where
  "sendPushNotification e userId payload s =
     (if db_rejects e (SelectSubscriptions userId)
      then (Inl (DbError (SelectSubscriptions userId)), s)
      else
        (let subscriptions = filter (\<lambda>r. sub_userId r = userId) (pushSubscriptions s) in
         if length subscriptions = 0 then (Inr \<lparr>success = 0, failed = 0\<rparr>, s)
         else send_loop e payload subscriptions \<lparr>success = 0, failed = 0\<rparr> s))"

text \<open>The permanent failures: the push service answered 410 or 404.\<close>

fun is_gone :: "send_outcome \<Rightarrow> bool" where
  "is_gone (Threw statusCode) = (statusCode = Some 410 \<or> statusCode = Some 404)"
| "is_gone Sent = False"

definition db_available :: "env \<Rightarrow> bool" where
  "db_available e = (\<forall>op. \<not> db_rejects e op)"

section \<open>Server: the scheduler\<close>

text \<open>The result of \<^verbatim>\<open>getCurrentTimeIST\<close>: \<^verbatim>\<open>HH:mm\<close>, the weekday tag and \<^verbatim>\<open>yyyy-MM-dd\<close>.
  The client reads the same three strings from its own clock.\<close>

record clock =
  time :: string
  day :: string
  date :: string

text \<open>The body of the alarm loop up to \<^verbatim>\<open>shouldTrigger\<close>.\<close>

definition alarm_shouldTrigger :: "clock \<Rightarrow> alarm \<Rightarrow> bool" where
  "alarm_shouldTrigger now a =
     (let alarmTime = take 5 (alarm_time a) in
      if alarmTime = time now then
        (if truthy (alarm_date a) then alarm_date a = Some (date now)
         else (case alarm_days a of
                 Some ds \<Rightarrow> (if length ds > 0 then day now \<in> set ds else True)
               | None \<Rightarrow> True))
      else False)"

definition alarm_payload :: "alarm \<Rightarrow> push_payload" where
  "alarm_payload a =
     \<lparr>pp_title = or_else (Some (alarm_title a)) ''MyPA Alarm'',
      pp_body = or_else (alarm_textToSpeak a) (alarm_title a @ '' - Time to wake up!''),
      pp_type = Alarm,
      pp_id = Some (alarm_id a),
      pp_textToSpeak = or_undefined (alarm_textToSpeak a)\<rparr>"

definition medicine_payload :: "medicine \<Rightarrow> push_payload" where
  "medicine_payload m =
     \<lparr>pp_title = ''Medicine: '' @ med_name m,
      pp_body = or_else (med_textToSpeak m)
                  (''Time to take '' @ med_name m @
                   (if truthy (med_dosage m) then '' - '' @ the (med_dosage m) else [])),
      pp_type = Medicine,
      pp_id = Some (med_id m),
      pp_textToSpeak = or_undefined (med_textToSpeak m)\<rparr>"

definition meeting_shouldTrigger :: "clock \<Rightarrow> meeting \<Rightarrow> bool" where
  "meeting_shouldTrigger now m =
     (let meetingTime = take 5 (meeting_time m) in
      meetingTime = time now \<and> meeting_date m = date now)"

definition meeting_payload :: "meeting \<Rightarrow> push_payload" where
  "meeting_payload m =
     \<lparr>pp_title = ''Meeting: '' @ meeting_title m,
      pp_body = or_else (meeting_textToSpeak m)
                  (meeting_title m @
                   (if truthy (meeting_location m) then '' at '' @ the (meeting_location m) else [])),
      pp_type = Meeting,
      pp_id = Some (meeting_id m),
      pp_textToSpeak = or_undefined (meeting_textToSpeak m)\<rparr>"

text \<open>
  The three loops. An awaited \<^verbatim>\<open>sendPushNotification\<close> that rejects leaves the loop at
  once: there is no handler inside the loops.
\<close>

fun alarm_loop :: "env \<Rightarrow> clock \<Rightarrow> alarm list \<Rightarrow> server \<Rightarrow> (error + unit) \<times> server" where
  "alarm_loop e now [] s = (Inr (), s)"
| "alarm_loop e now (a # rest) s =
     (if alarm_shouldTrigger now a then
        (case sendPushNotification e (alarm_userId a) (alarm_payload a)
                (s\<lparr>triggerLog := triggerLog s @ [(Alarm, alarm_id a)]\<rparr>) of
           (Inl err, s1) \<Rightarrow> (Inl err, s1)
         | (Inr counts, s1) \<Rightarrow> alarm_loop e now rest s1)
      else alarm_loop e now rest s)"

fun medTime_loop ::
  "env \<Rightarrow> clock \<Rightarrow> medicine \<Rightarrow> string list \<Rightarrow> server \<Rightarrow> (error + unit) \<times> server" where
  "medTime_loop e now m [] s = (Inr (), s)"
| "medTime_loop e now m (medTime # rest) s =
     (let medTimeHHMM = take 5 medTime in
      if medTimeHHMM = time now then
        (case sendPushNotification e (med_userId m) (medicine_payload m)
                (s\<lparr>triggerLog := triggerLog s @ [(Medicine, med_id m)]\<rparr>) of
           (Inl err, s1) \<Rightarrow> (Inl err, s1)
         | (Inr counts, s1) \<Rightarrow> medTime_loop e now m rest s1)
      else medTime_loop e now m rest s)"

fun medicine_loop ::
  "env \<Rightarrow> clock \<Rightarrow> medicine list \<Rightarrow> server \<Rightarrow> (error + unit) \<times> server" where
  "medicine_loop e now [] s = (Inr (), s)"
| "medicine_loop e now (m # rest) s =
     (case med_times m of
        Some ts \<Rightarrow>
          (if length ts > 0 then
             (case medTime_loop e now m ts s of
                (Inl err, s1) \<Rightarrow> (Inl err, s1)
              | (Inr u, s1) \<Rightarrow> medicine_loop e now rest s1)
           else medicine_loop e now rest s)
      | None \<Rightarrow> medicine_loop e now rest s)"

fun meeting_loop ::
  "env \<Rightarrow> clock \<Rightarrow> meeting list \<Rightarrow> server \<Rightarrow> (error + unit) \<times> server" where
  "meeting_loop e now [] s = (Inr (), s)"
| "meeting_loop e now (m # rest) s =
     (if meeting_shouldTrigger now m then
        (case sendPushNotification e (meeting_userId m) (meeting_payload m)
                (s\<lparr>triggerLog := triggerLog s @ [(Meeting, meeting_id m)]\<rparr>) of
           (Inl err, s1) \<Rightarrow> (Inl err, s1)
         | (Inr counts, s1) \<Rightarrow> meeting_loop e now rest s1)
      else meeting_loop e now rest s)"

text \<open>The \<^verbatim>\<open>try\<close> block of \<^verbatim>\<open>checkAndSendAlarms\<close>: three selects, each followed by its loop.\<close>

definition tick_body :: "env \<Rightarrow> clock \<Rightarrow> server \<Rightarrow> (error + unit) \<times> server" where
  "tick_body e now s =
     (if db_rejects e SelectAlarms then (Inl (DbError SelectAlarms), s)
      else
        (let activeAlarms = filter alarm_isActive (alarms s) in
         case alarm_loop e now activeAlarms s of
           (Inl err, s1) \<Rightarrow> (Inl err, s1)
         | (Inr u1, s1) \<Rightarrow>
             (if db_rejects e SelectMedicines then (Inl (DbError SelectMedicines), s1)
              else
                (let activeMedicines = filter med_isActive (medicines s1) in
                 case medicine_loop e now activeMedicines s1 of
                   (Inl err, s2) \<Rightarrow> (Inl err, s2)
                 | (Inr u2, s2) \<Rightarrow>
                     (if db_rejects e SelectMeetings then (Inl (DbError SelectMeetings), s2)
                      else
                        (let activeMeetings = filter meeting_enabled (meetings s2) in
                         meeting_loop e now activeMeetings s2))))))"

text \<open>The whole tick: the single \<^verbatim>\<open>catch\<close> around the body logs the error and returns.\<close>

definition checkAndSendAlarms :: "env \<Rightarrow> clock \<Rightarrow> server \<Rightarrow> server" where
  "checkAndSendAlarms e now s =
     (case tick_body e now s of
        (Inl err, s1) \<Rightarrow> s1\<lparr>errorLog := errorLog s1 @ [err]\<rparr>
      | (Inr u, s1) \<Rightarrow> s1)"

section \<open>Server: what a tick has to fire\<close>

text \<open>
  The items a tick finds due, in the order in which the three loops meet them: kind, id, owner
  and payload of each. A medicine appears once for every entry of its list that matches.
  \<open>dispatch_all\<close> is the common shape of the three loops: log the item, await its dispatch,
  stop at the first rejection.
\<close>

type_synonym due = "kind \<times> int \<times> string \<times> push_payload"

definition due_tag :: "due \<Rightarrow> kind \<times> int" where
  "due_tag d = (fst d, fst (snd d))"

definition due_user :: "due \<Rightarrow> string" where
  "due_user d = fst (snd (snd d))"

definition due_alarms :: "clock \<Rightarrow> alarm list \<Rightarrow> due list" where
  "due_alarms now as =
     [(Alarm, alarm_id a, alarm_userId a, alarm_payload a). a \<leftarrow> as, alarm_shouldTrigger now a]"

definition due_medTimes :: "clock \<Rightarrow> medicine \<Rightarrow> due list" where
  "due_medTimes now m =
     (case med_times m of
        Some ts \<Rightarrow>
          [(Medicine, med_id m, med_userId m, medicine_payload m). t \<leftarrow> ts, take 5 t = time now]
      | None \<Rightarrow> [])"

definition due_medicines :: "clock \<Rightarrow> medicine list \<Rightarrow> due list" where
  "due_medicines now ms = concat (map (due_medTimes now) ms)"

definition due_meetings :: "clock \<Rightarrow> meeting list \<Rightarrow> due list" where
  "due_meetings now ms =
     [(Meeting, meeting_id m, meeting_userId m, meeting_payload m).
        m \<leftarrow> ms, meeting_shouldTrigger now m]"

definition due_items :: "clock \<Rightarrow> server \<Rightarrow> due list" where
  "due_items now s =
     due_alarms now (filter alarm_isActive (alarms s)) @
     due_medicines now (filter med_isActive (medicines s)) @
     due_meetings now (filter meeting_enabled (meetings s))"

fun dispatch_all :: "env \<Rightarrow> due list \<Rightarrow> server \<Rightarrow> (error + unit) \<times> server" where
  "dispatch_all e [] s = (Inr (), s)"
| "dispatch_all e (d # rest) s =
     (case sendPushNotification e (due_user d) (snd (snd (snd d)))
             (s\<lparr>triggerLog := triggerLog s @ [due_tag d]\<rparr>) of
        (Inl err, s1) \<Rightarrow> (Inl err, s1)
      | (Inr counts, s1) \<Rightarrow> dispatch_all e rest s1)"

text \<open>The items of a list up to and including the first one that satisfies \<open>P\<close>.\<close>

fun upto_first :: "('a \<Rightarrow> bool) \<Rightarrow> 'a list \<Rightarrow> 'a list" where
  "upto_first P [] = []"
| "upto_first P (x # xs) = (if P x then [x] else x # upto_first P xs)"

text \<open>A dispatch certainly rejects when the select of the owner's subscriptions does.\<close>

definition dispatch_rejects :: "env \<Rightarrow> due \<Rightarrow> bool" where
  "dispatch_rejects e d = db_rejects e (SelectSubscriptions (due_user d))"

section \<open>Client: the offline store of dismissals\<close>

text \<open>
  \<^verbatim>\<open>DismissedRecord\<close> and the IndexedDB database of \<^verbatim>\<open>offlineStorage.ts\<close>. An object store
  holds at most one record per key; it is a list of keys with their records, in which
  \<open>store_put\<close> replaces the record of a key that is present and \<open>store_delete\<close> removes a
  key. (IndexedDB keeps the records in key order; the list does not, and nothing below depends
  on the order.) \<^verbatim>\<open>dbInstance\<close> tells whether \<^verbatim>\<open>initOfflineDB\<close> has resolved: until then
  \<^verbatim>\<open>getDB\<close> throws, and every exported function catches that error and returns without
  effect.
\<close>

record dismissed_record =
  dr_key :: string
  dr_type :: string
  dr_id :: int
  dr_time :: string
  dr_date :: string
  dr_dismissedAt :: int

type_synonym ('k, 'v) object_store = "('k \<times> 'v) list"

fun store_put :: "'k \<Rightarrow> 'v \<Rightarrow> ('k, 'v) object_store \<Rightarrow> ('k, 'v) object_store" where
  "store_put k v [] = [(k, v)]"
| "store_put k v (e # rest) = (if fst e = k then (k, v) # rest else e # store_put k v rest)"

definition store_delete :: "'k \<Rightarrow> ('k, 'v) object_store \<Rightarrow> ('k, 'v) object_store" where
  "store_delete k st = filter (\<lambda>e. fst e \<noteq> k) st"

record offline_db =
  dbInstance :: bool
  store_alarms :: "(int, alarm) object_store"
  store_medicines :: "(int, medicine) object_store"
  store_meetings :: "(int, meeting) object_store"
  store_dismissed :: "(string, dismissed_record) object_store"

text \<open>A JavaScript integer in a template string: its decimal digits, with a sign if negative.\<close>

fun string_of_nat :: "nat \<Rightarrow> string" where
  "string_of_nat n =
     (if n < 10 then [''0123456789'' ! n]
      else string_of_nat (n div 10) @ [''0123456789'' ! (n mod 10)])"

definition string_of_int :: "int \<Rightarrow> string" where
  "string_of_int i =
     (if i < 0 then CHR ''-'' # string_of_nat (nat (- i)) else string_of_nat (nat i))"

definition markDismissed :: "string \<Rightarrow> int \<Rightarrow> string \<Rightarrow> string \<Rightarrow> int \<Rightarrow> offline_db \<Rightarrow> offline_db" where
  "markDismissed type itemId t today nowMs db =
     (if \<not> dbInstance db then db
      else
        (let record =
               \<lparr>dr_key = type @ ''-'' @ string_of_int itemId @ ''-'' @ t @ ''-'' @ today,
                dr_type = type, dr_id = itemId, dr_time = t, dr_date = today,
                dr_dismissedAt = nowMs\<rparr>
         in db\<lparr>store_dismissed := store_put (dr_key record) record (store_dismissed db)\<rparr>))"

text \<open>
  \<^verbatim>\<open>clearExpiredDismissals\<close>: a cursor opened on the store visits the records it holds, and
  \<^verbatim>\<open>cursor.delete()\<close> removes the visited record when its date is not today's.
\<close>

fun cursor_loop ::
  "string \<Rightarrow> (string \<times> dismissed_record) list \<Rightarrow> (string, dismissed_record) object_store
    \<Rightarrow> (string, dismissed_record) object_store" where
  "cursor_loop today [] st = st"
| "cursor_loop today (e # rest) st =
     (let record = snd e in
      cursor_loop today rest (if dr_date record \<noteq> today then store_delete (fst e) st else st))"

definition clearExpiredDismissals :: "string \<Rightarrow> offline_db \<Rightarrow> offline_db" where
  "clearExpiredDismissals today db =
     (if \<not> dbInstance db then db
      else db\<lparr>store_dismissed := cursor_loop today (store_dismissed db) (store_dismissed db)\<rparr>)"

section \<open>Client: the trigger coordinator\<close>

text \<open>
  \<^verbatim>\<open>ActiveAlarmData\<close>, reduced to what identifies the presentation; the texts, the image and
  the audio element are left out, and so are the sound, speech and vibration that
  \<^verbatim>\<open>triggerAlarm\<close> starts after it has set the popup.
\<close>

record popup =
  popup_id :: int
  popup_type :: kind
  popup_isDateAlarm :: bool

text \<open>
  The state of \<^verbatim>\<open>GlobalAlarmHandler\<close>: its React state, the two refs, the offline database, the
  \<^verbatim>\<open>updateAlarm.mutate\<close> requests it has issued (id and new \<^verbatim>\<open>isActive\<close>), and the
  \<^verbatim>\<open>[GlobalAlarm] Triggering ...\<close> lines, one per presentation started.
\<close>

record client =
  activeAlarms :: "int set"
  activeMeds :: "int set"
  activeMeetings :: "int set"
  dismissedAlarms :: "int \<rightharpoonup> string"
  dismissedMeds :: "int \<rightharpoonup> string"
  dismissedMeetings :: "int \<rightharpoonup> string"
  activeAlarmPopup :: "popup option"
  isProcessing :: bool
  lastTriggered :: "string \<rightharpoonup> int"
  offline :: offline_db
  storeRequests :: "(int \<times> bool) list"
  presentLog :: "(kind \<times> int) list"

definition dedup_key :: "string \<Rightarrow> int \<Rightarrow> string" where
  "dedup_key type itemId = type @ ''-'' @ string_of_int itemId"

text \<open>\<^verbatim>\<open>isDedupBlocked\<close>; \<^verbatim>\<open>nowMs\<close> is \<^verbatim>\<open>Date.now()\<close>. A stored time of 0 is falsy.\<close>

definition isDedupBlocked :: "string \<Rightarrow> int \<Rightarrow> int \<Rightarrow> client \<Rightarrow> bool \<times> client" where
  "isDedupBlocked type itemId nowMs s =
     (let key = dedup_key type itemId;
          lastTime = lastTriggered s key
      in if (case lastTime of Some t \<Rightarrow> t \<noteq> 0 \<and> nowMs - t < 60000 | None \<Rightarrow> False)
         then (True, s)
         else (False, s\<lparr>lastTriggered := (lastTriggered s)(key \<mapsto> nowMs)\<rparr>))"

definition triggerAlarm :: "int \<Rightarrow> kind \<Rightarrow> bool \<Rightarrow> int \<Rightarrow> client \<Rightarrow> client" where
  "triggerAlarm itemId type isDateAlarm nowMs s =
     (case isDedupBlocked (kind_str type) itemId nowMs s of
        (True, s1) \<Rightarrow> s1
      | (False, s1) \<Rightarrow>
          s1\<lparr>presentLog := presentLog s1 @ [(type, itemId)],
             activeAlarmPopup :=
               Some \<lparr>popup_id = itemId, popup_type = type, popup_isDateAlarm = isDateAlarm\<rparr>\<rparr>)"

text \<open>
  The data of a push message as \<^verbatim>\<open>triggerFromPushData\<close> reads it: \<^verbatim>\<open>data.type\<close>,
  \<^verbatim>\<open>data.id\<close> and \<^verbatim>\<open>data.alarmId\<close>. The item id is \<^verbatim>\<open>data.id || data.alarmId || 0\<close>,
  where 0 is falsy, and the call passes no \<^verbatim>\<open>isDateAlarm\<close>.
\<close>

record push_data =
  pd_type :: string
  pd_id :: "int option"
  pd_alarmId :: "int option"

definition push_item_id :: "push_data \<Rightarrow> int" where
  "push_item_id d =
     (case pd_id d of
        Some i \<Rightarrow> (if i \<noteq> 0 then i else (case pd_alarmId d of Some j \<Rightarrow> j | None \<Rightarrow> 0))
      | None \<Rightarrow> (case pd_alarmId d of Some j \<Rightarrow> j | None \<Rightarrow> 0))"

definition push_alarmKind :: "push_data \<Rightarrow> kind" where
  "push_alarmKind d =
     (let isMedicine = (pd_type d = ''medicine'');
          isMeeting = (pd_type d = ''meeting'')
      in if isMeeting then Meeting else if isMedicine then Medicine else Alarm)"

definition triggerFromPushData :: "push_data \<Rightarrow> int \<Rightarrow> client \<Rightarrow> client" where
  "triggerFromPushData d nowMs s = triggerAlarm (push_item_id d) (push_alarmKind d) False nowMs s"

text \<open>
  What the service worker posts to the page for a payload of the server: the parsed JSON of
  \<^verbatim>\<open>JSON.stringify(payload)\<close>, which has a \<^verbatim>\<open>type\<close> and an \<^verbatim>\<open>id\<close> and no \<^verbatim>\<open>alarmId\<close>.
\<close>

definition push_data_of :: "push_payload \<Rightarrow> push_data" where
  "push_data_of p = \<lparr>pd_type = kind_str (pp_type p), pd_id = pp_id p, pd_alarmId = None\<rparr>"

subsection \<open>The polling loop\<close>

text \<open>
  One run of the interval callback. The callback reads the React state of the render that
  created it (\<open>snap\<close>); its functional updates and the writes to the ref act on the state
  that is being built (\<open>s\<close>). \<open>now\<close> holds \<^verbatim>\<open>currentTime\<close>, \<^verbatim>\<open>currentDay\<close> and
  \<^verbatim>\<open>currentDate\<close>.
\<close>

definition poll_isDateMatch :: "clock \<Rightarrow> alarm \<Rightarrow> bool" where
  "poll_isDateMatch now a = (alarm_date a = Some (date now))"

definition poll_alarm_matches :: "clock \<Rightarrow> alarm \<Rightarrow> bool" where
  "poll_alarm_matches now a =
     (let isTimeMatch = (alarm_time a = time now);
          isDayMatch = (case alarm_days a of Some ds \<Rightarrow> day now \<in> set ds | None \<Rightarrow> False);
          isDateMatch = poll_isDateMatch now a;
          noDays = (case alarm_days a of Some ds \<Rightarrow> length ds = 0 | None \<Rightarrow> True)
      in isTimeMatch \<and> (isDayMatch \<or> isDateMatch \<or> (noDays \<and> \<not> truthy (alarm_date a))))"

definition poll_alarm :: "clock \<Rightarrow> int \<Rightarrow> client \<Rightarrow> alarm \<Rightarrow> client \<Rightarrow> client" where
  "poll_alarm now nowMs snap a s =
     (if \<not> alarm_isActive a then s
      else
        (let wasDismissedThisMinute = (dismissedAlarms snap (alarm_id a) = Some (time now)) in
         if poll_alarm_matches now a then
           (if alarm_id a \<notin> activeAlarms snap \<and> \<not> wasDismissedThisMinute then
              (let s1 = triggerAlarm (alarm_id a) Alarm (poll_isDateMatch now a) nowMs s
               in s1\<lparr>activeAlarms := insert (alarm_id a) (activeAlarms s1)\<rparr>)
            else s)
         else
           (let s1 = (if alarm_id a \<in> activeAlarms snap \<and> activeAlarmPopup snap = None
                      then s\<lparr>activeAlarms := activeAlarms s - {alarm_id a}\<rparr> else s);
                s2 = (if dismissedAlarms snap (alarm_id a) \<noteq> None
                         \<and> dismissedAlarms snap (alarm_id a) \<noteq> Some (time now)
                      then s1\<lparr>dismissedAlarms := (dismissedAlarms s1)(alarm_id a := None)\<rparr>
                      else s1)
            in s2)))"

definition poll_medicine_matches :: "clock \<Rightarrow> medicine \<Rightarrow> bool" where
  "poll_medicine_matches now m =
     (case med_times m of Some ts \<Rightarrow> time now \<in> set ts | None \<Rightarrow> False)"

definition poll_medicine :: "clock \<Rightarrow> int \<Rightarrow> client \<Rightarrow> medicine \<Rightarrow> client \<Rightarrow> client" where
  "poll_medicine now nowMs snap m s =
     (let wasDismissedThisMinute = (dismissedMeds snap (med_id m) = Some (time now)) in
      if poll_medicine_matches now m then
        (if med_id m \<notin> activeMeds snap \<and> \<not> wasDismissedThisMinute then
           (let s1 = triggerAlarm (med_id m) Medicine False nowMs s
            in s1\<lparr>activeMeds := insert (med_id m) (activeMeds s1)\<rparr>)
         else s)
      else
        (let s1 = (if med_id m \<in> activeMeds snap \<and> activeAlarmPopup snap = None
                   then s\<lparr>activeMeds := activeMeds s - {med_id m}\<rparr> else s);
             s2 = (if dismissedMeds snap (med_id m) \<noteq> None
                      \<and> dismissedMeds snap (med_id m) \<noteq> Some (time now)
                   then s1\<lparr>dismissedMeds := (dismissedMeds s1)(med_id m := None)\<rparr>
                   else s1)
         in s2))"

definition poll_meeting_matches :: "clock \<Rightarrow> meeting \<Rightarrow> bool" where
  "poll_meeting_matches now m =
     (let isTimeMatch = (meeting_time m = time now);
          isDateMatch = (meeting_date m = date now)
      in isTimeMatch \<and> isDateMatch)"

definition poll_meeting :: "clock \<Rightarrow> int \<Rightarrow> client \<Rightarrow> meeting \<Rightarrow> client \<Rightarrow> client" where
  "poll_meeting now nowMs snap m s =
     (if \<not> meeting_enabled m then s
      else
        (let wasDismissedThisMinute = (dismissedMeetings snap (meeting_id m) = Some (time now)) in
         if poll_meeting_matches now m then
           (if meeting_id m \<notin> activeMeetings snap \<and> \<not> wasDismissedThisMinute then
              (let s1 = triggerAlarm (meeting_id m) Meeting False nowMs s
               in s1\<lparr>activeMeetings := insert (meeting_id m) (activeMeetings s1)\<rparr>)
            else s)
         else
           (let s1 = (if meeting_id m \<in> activeMeetings snap \<and> activeAlarmPopup snap = None
                      then s\<lparr>activeMeetings := activeMeetings s - {meeting_id m}\<rparr> else s);
                s2 = (if dismissedMeetings snap (meeting_id m) \<noteq> None
                         \<and> dismissedMeetings snap (meeting_id m) \<noteq> Some (time now)
                      then s1\<lparr>dismissedMeetings := (dismissedMeetings s1)(meeting_id m := None)\<rparr>
                      else s1)
            in s2)))"

definition poll ::
  "clock \<Rightarrow> int \<Rightarrow> alarm list \<Rightarrow> medicine list \<Rightarrow> meeting list \<Rightarrow> client \<Rightarrow> client" where
  "poll now nowMs effectiveAlarms effectiveMedicines effectiveMeetings s =
     fold (poll_meeting now nowMs s) effectiveMeetings
       (fold (poll_medicine now nowMs s) effectiveMedicines
          (fold (poll_alarm now nowMs s) effectiveAlarms s))"

subsection \<open>Dismissing\<close>

text \<open>
  \<^verbatim>\<open>dismissAlarm\<close>; \<open>now\<close> gives \<^verbatim>\<open>format(new Date(), "HH:mm")\<close> and the date string of
  \<^verbatim>\<open>getTodayDateStr\<close>. The guard \<^verbatim>\<open>isProcessingRef\<close> is released by a timer 300 ms later
  (\<open>release_processing\<close>). Only the alarm branch issues a request to the schedule store, and
  only for a popup whose \<^verbatim>\<open>isDateAlarm\<close> is set.
\<close>

definition dismissAlarm :: "clock \<Rightarrow> int \<Rightarrow> client \<Rightarrow> client" where
  "dismissAlarm now nowMs s =
     (if isProcessing s then s
      else
        (let s0 = s\<lparr>isProcessing := True\<rparr> in
         case activeAlarmPopup s0 of
           None \<Rightarrow> s0
         | Some p \<Rightarrow>
             (let currentTime = time now;
                  s1 =
                    (case popup_type p of
                       Alarm \<Rightarrow>
                         (let a1 = s0\<lparr>activeAlarms := activeAlarms s0 - {popup_id p},
                                      dismissedAlarms := (dismissedAlarms s0)(popup_id p \<mapsto> currentTime),
                                      offline := markDismissed ''alarm'' (popup_id p) currentTime
                                                   (date now) nowMs (offline s0)\<rparr>
                          in if popup_isDateAlarm p
                             then a1\<lparr>storeRequests := storeRequests a1 @ [(popup_id p, False)]\<rparr>
                             else a1)
                     | Meeting \<Rightarrow>
                         s0\<lparr>activeMeetings := activeMeetings s0 - {popup_id p},
                            dismissedMeetings := (dismissedMeetings s0)(popup_id p \<mapsto> currentTime),
                            offline := markDismissed ''meeting'' (popup_id p) currentTime
                                         (date now) nowMs (offline s0)\<rparr>
                     | Medicine \<Rightarrow>
                         s0\<lparr>activeMeds := activeMeds s0 - {popup_id p},
                            dismissedMeds := (dismissedMeds s0)(popup_id p \<mapsto> currentTime),
                            offline := markDismissed ''medicine'' (popup_id p) currentTime
                                         (date now) nowMs (offline s0)\<rparr>)
              in s1\<lparr>activeAlarmPopup := None\<rparr>)))"

definition release_processing :: "client \<Rightarrow> client" where
  "release_processing s = s\<lparr>isProcessing := False\<rparr>"


section \<open>Client: states, triggers and runs of the polling loop\<close>

text \<open>The state of the handler when it is mounted, over a given offline database: the initial
  values of its \<^verbatim>\<open>useState\<close> and \<^verbatim>\<open>useRef\<close> calls.\<close>

definition initial_client :: "offline_db \<Rightarrow> client" where
  "initial_client db =
     \<lparr>activeAlarms = {}, activeMeds = {}, activeMeetings = {},
      dismissedAlarms = Map.empty, dismissedMeds = Map.empty, dismissedMeetings = Map.empty,
      activeAlarmPopup = None, isProcessing = False, lastTriggered = Map.empty,
      offline = db, storeRequests = [], presentLog = []\<rparr>"

text \<open>
  A due-event reaching the coordinator: from the polling loop, which calls \<^verbatim>\<open>triggerAlarm\<close>
  with the item, its kind and \<^verbatim>\<open>isDateMatch\<close>, or from a push message, which goes through
  \<^verbatim>\<open>triggerFromPushData\<close>. \<open>trigger_key\<close> is the key that the call hands to the gate.
\<close>

datatype trigger = FromPoll kind int bool | FromPush push_data

fun deliver :: "trigger \<Rightarrow> int \<Rightarrow> client \<Rightarrow> client" where
  "deliver (FromPoll type itemId isDateAlarm) nowMs s = triggerAlarm itemId type isDateAlarm nowMs s"
| "deliver (FromPush d) nowMs s = triggerFromPushData d nowMs s"

fun trigger_kind :: "trigger \<Rightarrow> kind" where
  "trigger_kind (FromPoll type itemId isDateAlarm) = type"
| "trigger_kind (FromPush d) = push_alarmKind d"

fun trigger_item :: "trigger \<Rightarrow> int" where
  "trigger_item (FromPoll type itemId isDateAlarm) = itemId"
| "trigger_item (FromPush d) = push_item_id d"

fun trigger_isDateAlarm :: "trigger \<Rightarrow> bool" where
  "trigger_isDateAlarm (FromPoll type itemId isDateAlarm) = isDateAlarm"
| "trigger_isDateAlarm (FromPush d) = False"

definition trigger_key :: "trigger \<Rightarrow> string" where
  "trigger_key tr = dedup_key (kind_str (trigger_kind tr)) (trigger_item tr)"

text \<open>Whether the gate holds an entry for the key that blocks a trigger arriving at \<open>nowMs\<close>.\<close>

definition recently_triggered :: "client \<Rightarrow> string \<Rightarrow> int \<Rightarrow> bool" where
  "recently_triggered s key nowMs =
     (case lastTriggered s key of Some t \<Rightarrow> t \<noteq> 0 \<and> nowMs - t < 60000 | None \<Rightarrow> False)"

text \<open>The dismissal map of a kind, and a succession of runs of the polling callback, each with
  its clock reading, its \<^verbatim>\<open>Date.now()\<close> and the lists that are effective at that moment.\<close>

fun dismissed_of :: "kind \<Rightarrow> client \<Rightarrow> (int \<rightharpoonup> string)" where
  "dismissed_of Alarm s = dismissedAlarms s"
| "dismissed_of Medicine s = dismissedMeds s"
| "dismissed_of Meeting s = dismissedMeetings s"

type_synonym poll_tick = "clock \<times> int \<times> alarm list \<times> medicine list \<times> meeting list"

fun run_polls :: "poll_tick list \<Rightarrow> client \<Rightarrow> client" where
  "run_polls [] s = s"
| "run_polls ((now, nowMs, effectiveAlarms, effectiveMedicines, effectiveMeetings) # rest) s =
     run_polls rest (poll now nowMs effectiveAlarms effectiveMedicines effectiveMeetings s)"

text \<open>
  For stating what the polling loop may present: the presentations started between two states,
  the items a run of the callback can present when it reads the state \<open>snap\<close> (the item's
  condition holds, it is not in the active set of its kind, and it was not dismissed in the
  current minute), and the statement that a step only appends entries from a given set.
\<close>

definition adds_only :: "(kind \<times> int) set \<Rightarrow> client \<Rightarrow> client \<Rightarrow> bool" where
  "adds_only A s s' = (\<exists>ext. presentLog s' = presentLog s @ ext \<and> set ext \<subseteq> A)"

definition alarm_presentable :: "clock \<Rightarrow> client \<Rightarrow> alarm \<Rightarrow> bool" where
  "alarm_presentable now snap a =
     (alarm_isActive a \<and> poll_alarm_matches now a \<and> alarm_id a \<notin> activeAlarms snap \<and>
      dismissedAlarms snap (alarm_id a) \<noteq> Some (time now))"

definition medicine_presentable :: "clock \<Rightarrow> client \<Rightarrow> medicine \<Rightarrow> bool" where
  "medicine_presentable now snap m =
     (poll_medicine_matches now m \<and> med_id m \<notin> activeMeds snap \<and>
      dismissedMeds snap (med_id m) \<noteq> Some (time now))"

definition meeting_presentable :: "clock \<Rightarrow> client \<Rightarrow> meeting \<Rightarrow> bool" where
  "meeting_presentable now snap m =
     (meeting_enabled m \<and> poll_meeting_matches now m \<and> meeting_id m \<notin> activeMeetings snap \<and>
      dismissedMeetings snap (meeting_id m) \<noteq> Some (time now))"

definition presentable :: "clock \<Rightarrow> client \<Rightarrow> alarm list \<Rightarrow> medicine list \<Rightarrow> meeting list
    \<Rightarrow> (kind \<times> int) set" where
  "presentable now snap as ms gs =
     {(Alarm, alarm_id a) | a. a \<in> set as \<and> alarm_presentable now snap a} \<union>
     {(Medicine, med_id m) | m. m \<in> set ms \<and> medicine_presentable now snap m} \<union>
     {(Meeting, meeting_id g) | g. g \<in> set gs \<and> meeting_presentable now snap g}"

definition presented_between :: "client \<Rightarrow> client \<Rightarrow> (kind \<times> int) list" where
  "presented_between s s' = drop (length (presentLog s)) (presentLog s')"

text \<open>
  For stating what a tick does under any environment. \<open>dispatch_error\<close> is the error, if any,
  with which the dispatch to a user rejects on a given registry: the rejected select, or else
  the rejected delete of the first of the user's subscriptions whose delivery fails with 410
  or 404. \<open>registry_after\<close> is the registry a dispatch without error leaves. \<open>reached\<close> walks
  the due items with the registry as it evolves and returns the items up to and including the
  first one whose dispatch rejects, together with that error.
\<close>

definition dispatch_error ::
  "env \<Rightarrow> push_subscription list \<Rightarrow> string \<Rightarrow> push_payload \<Rightarrow> error option" where
  "dispatch_error e reg u p =
     (if db_rejects e (SelectSubscriptions u) then Some (DbError (SelectSubscriptions u))
      else
        (case find (\<lambda>r. is_gone (webPush_sendNotification e r p) \<and>
                          db_rejects e (DeleteSubscription (sub_id r)))
                (filter (\<lambda>r. sub_userId r = u) reg) of
           Some r \<Rightarrow> Some (DbError (DeleteSubscription (sub_id r)))
         | None \<Rightarrow> None))"

definition registry_after ::
  "env \<Rightarrow> push_subscription list \<Rightarrow> string \<Rightarrow> push_payload \<Rightarrow> push_subscription list" where
  "registry_after e reg u p =
     filter (\<lambda>r. \<forall>x \<in> set (filter (\<lambda>r. sub_userId r = u) reg).
                    is_gone (webPush_sendNotification e x p) \<longrightarrow> sub_id r \<noteq> sub_id x) reg"

fun reached :: "env \<Rightarrow> due list \<Rightarrow> push_subscription list \<Rightarrow> due list \<times> error option" where
  "reached e [] reg = ([], None)"
| "reached e (d # rest) reg =
     (case dispatch_error e reg (due_user d) (snd (snd (snd d))) of
        Some err \<Rightarrow> ([d], Some err)
      | None \<Rightarrow>
          (case reached e rest (registry_after e reg (due_user d) (snd (snd (snd d)))) of
             (ds, r) \<Rightarrow> (d # ds, r)))"



section \<open>Example data\<close>

text \<open>A user with three registered devices: A accepts the message, B answers 410 (gone), C times
  out; every database operation succeeds.\<close>

definition subA :: push_subscription where
  "subA = \<lparr>sub_id = 1, sub_userId = ''u1'', sub_endpoint = ''A'', sub_p256dh = ''kA'',
           sub_auth = ''aA'', sub_platform = Some ''web'', sub_deviceType = Some ''desktop'',
           sub_deviceName = None, sub_supportsFullScreen = False\<rparr>"

definition subB :: push_subscription where
  "subB = \<lparr>sub_id = 2, sub_userId = ''u1'', sub_endpoint = ''B'', sub_p256dh = ''kB'',
           sub_auth = ''aB'', sub_platform = Some ''android'', sub_deviceType = Some ''mobile'',
           sub_deviceName = None, sub_supportsFullScreen = True\<rparr>"

definition subC :: push_subscription where
  "subC = \<lparr>sub_id = 3, sub_userId = ''u1'', sub_endpoint = ''C'', sub_p256dh = ''kC'',
           sub_auth = ''aC'', sub_platform = Some ''ios'', sub_deviceType = Some ''tablet'',
           sub_deviceName = None, sub_supportsFullScreen = False\<rparr>"

definition transport_ABC :: "push_subscription \<Rightarrow> push_payload \<Rightarrow> send_outcome" where
  "transport_ABC r p =
     (if sub_endpoint r = ''A'' then Sent
      else if sub_endpoint r = ''B'' then Threw (Some 410)
      else Threw None)"

definition env_ABC :: env where
  "env_ABC = \<lparr>webPush_sendNotification = transport_ABC, db_rejects = (\<lambda>op. False)\<rparr>"

definition empty_server :: server where
  "empty_server = \<lparr>alarms = [], medicines = [], meetings = [], pushSubscriptions = [],
                    attempts = [], triggerLog = [], errorLog = []\<rparr>"

definition server_ABC :: server where
  "server_ABC = empty_server\<lparr>pushSubscriptions := [subA, subB, subC]\<rparr>"

definition wake_up :: push_payload where
  "wake_up = \<lparr>pp_title = ''Wake up'', pp_body = ''Wake up - Time to wake up!'', pp_type = Alarm,
               pp_id = Some 7, pp_textToSpeak = None\<rparr>"

text \<open>Monday 5 January 2026, 07:00, and a schedule in which everything is due then: a
  date alarm and a meeting of user u1, a weekly alarm and a medicine of user u2.\<close>

definition monday_0700 :: clock where
  "monday_0700 = \<lparr>time = ''07:00'', day = ''Mon'', date = ''2026-01-05''\<rparr>"

definition flight_alarm :: alarm where
  "flight_alarm = \<lparr>alarm_id = 7, alarm_userId = ''u1'', alarm_title = ''Flight'',
     alarm_time = ''07:00'', alarm_date = Some ''2026-01-05'', alarm_days = None,
     alarm_isActive = True, alarm_textToSpeak = None\<rparr>"

definition gym_alarm :: alarm where
  "gym_alarm = \<lparr>alarm_id = 8, alarm_userId = ''u2'', alarm_title = ''Gym'',
     alarm_time = ''07:00'', alarm_date = None, alarm_days = Some [''Mon'', ''Wed''],
     alarm_isActive = True, alarm_textToSpeak = None\<rparr>"

definition pills :: medicine where
  "pills = \<lparr>med_id = 3, med_userId = ''u2'', med_name = ''Aspirin'',
     med_times = Some [''07:00'', ''19:00''], med_isActive = True, med_textToSpeak = None,
     med_dosage = Some ''1 tablet''\<rparr>"

definition standup :: meeting where
  "standup = \<lparr>meeting_id = 5, meeting_userId = ''u1'', meeting_title = ''Standup'',
     meeting_date = ''2026-01-05'', meeting_time = ''07:00'', meeting_enabled = True,
     meeting_location = None, meeting_textToSpeak = None\<rparr>"

definition server_busy :: server where
  "server_busy = empty_server\<lparr>alarms := [flight_alarm, gym_alarm], medicines := [pills],
     meetings := [standup], pushSubscriptions := [subA, subB, subC]\<rparr>"

text \<open>Environments in which the select of one user's subscriptions is rejected.\<close>

definition env_u1_down :: env where
  "env_u1_down = \<lparr>webPush_sendNotification = transport_ABC,
                   db_rejects = (\<lambda>op. op = SelectSubscriptions ''u1'')\<rparr>"

definition env_u2_down :: env where
  "env_u2_down = \<lparr>webPush_sendNotification = transport_ABC,
                   db_rejects = (\<lambda>op. op = SelectSubscriptions ''u2'')\<rparr>"

text \<open>An alarm that has both a date and recurring days (the form lets the user fill in both),
  and the Monday one week after its date.\<close>

definition both_alarm :: alarm where
  "both_alarm = \<lparr>alarm_id = 9, alarm_userId = ''u1'', alarm_title = ''Dentist'',
     alarm_time = ''07:00'', alarm_date = Some ''2026-01-05'', alarm_days = Some [''Mon''],
     alarm_isActive = True, alarm_textToSpeak = None\<rparr>"

definition next_monday_0700 :: clock where
  "next_monday_0700 = \<lparr>time = ''07:00'', day = ''Mon'', date = ''2026-01-12''\<rparr>"

text \<open>A client that has just been mounted over an opened, empty offline database; the
  instant 2026-01-05 07:00:00 IST in milliseconds; a medicine with two doses one minute
  apart.\<close>

definition empty_offline :: offline_db where
  "empty_offline = \<lparr>dbInstance = True, store_alarms = [], store_medicines = [],
     store_meetings = [], store_dismissed = []\<rparr>"

definition fresh_client :: client where
  "fresh_client = initial_client empty_offline"

definition ms_0700 :: int where
  "ms_0700 = 1767576600000"

definition monday_0701 :: clock where
  "monday_0701 = \<lparr>time = ''07:01'', day = ''Mon'', date = ''2026-01-05''\<rparr>"

definition drops :: medicine where
  "drops = \<lparr>med_id = 4, med_userId = ''u1'', med_name = ''Eye drops'',
     med_times = Some [''07:00'', ''07:01''], med_isActive = True, med_textToSpeak = None,
     med_dosage = None\<rparr>"

text \<open>An offline database on 3 November 2026 that holds a dismissal dated the day before, one
  dated that day, and one dated the day after (written while the device's clock was a day
  ahead), next to a cached alarm.\<close>

definition dismissal_on :: "string \<Rightarrow> dismissed_record" where
  "dismissal_on d = \<lparr>dr_key = ''alarm-7-07:00-'' @ d, dr_type = ''alarm'', dr_id = 7,
     dr_time = ''07:00'', dr_date = d, dr_dismissedAt = 0\<rparr>"

definition offline_three_days :: offline_db where
  "offline_three_days = empty_offline\<lparr>
     store_alarms := [(7, flight_alarm)],
     store_dismissed :=
       [(''alarm-7-07:00-2026-11-02'', dismissal_on ''2026-11-02''),
        (''alarm-7-07:00-2026-11-03'', dismissal_on ''2026-11-03''),
        (''alarm-7-07:00-2026-11-04'', dismissal_on ''2026-11-04'')]\<rparr>"

text \<open>An alarm with neither a date nor recurring days.\<close>

definition plain_alarm :: alarm where
  "plain_alarm = \<lparr>alarm_id = 10, alarm_userId = ''u2'', alarm_title = ''Tea'',
     alarm_time = ''07:00'', alarm_date = None, alarm_days = Some [],
     alarm_isActive = True, alarm_textToSpeak = None\<rparr>"

text \<open>An environment in which the delete of subscription 2 (device B, which answers 410) is
  rejected.\<close>

definition env_delete_down :: env where
  "env_delete_down = \<lparr>webPush_sendNotification = transport_ABC,
                       db_rejects = (\<lambda>op. op = DeleteSubscription 2)\<rparr>"

section \<open>Properties of the dispatcher\<close>

lemma send_loop_result:
  assumes "\<And>i. \<not> db_rejects e (DeleteSubscription i)"
  shows "send_loop e p subs c s =
    (Inr \<lparr>success = success c + length (filter (\<lambda>r. webPush_sendNotification e r p = Sent) subs),
          failed = failed c + length (filter (\<lambda>r. webPush_sendNotification e r p \<noteq> Sent) subs)\<rparr>,
     s\<lparr>attempts := attempts s @ map (\<lambda>r. (r, p)) subs,
       pushSubscriptions :=
         filter (\<lambda>r. \<forall>x \<in> set subs. is_gone (webPush_sendNotification e x p) \<longrightarrow> sub_id r \<noteq> sub_id x)
           (pushSubscriptions s)\<rparr>)"
proof (induction subs arbitrary: c s)
  case Nil
  show ?case by simp
next
  case (Cons sub subs)
  show ?case
  proof (cases "webPush_sendNotification e sub p")
    case Sent
    then show ?thesis using Cons.IH by (simp add: Let_def)
  next
    case (Threw code)
    show ?thesis
    proof (cases "code = Some 410 \<or> code = Some 404")
      case True
      with Threw show ?thesis using Cons.IH assms
        by (auto simp add: Let_def intro!: filter_cong)
    next
      case False
      with Threw show ?thesis using Cons.IH assms
        by (simp add: Let_def)
    qed
  qed
qed

text \<open>
  C4. When the database operations succeed and the registry's ids are distinct (they are the
  primary key), dispatching to a user attempts one delivery per endpoint of that user, in
  order; \<open>success\<close> is the number of deliveries that resolved and \<open>failed\<close> the number that
  threw; afterwards the registry has lost exactly the user's endpoints whose delivery threw
  with status 410 or 404, and every other row, among them the endpoints that failed in any
  other way, is still there.
\<close>

theorem dispatch_counts_and_pruning:
  assumes db: "db_available e"
    and ids: "distinct (map sub_id (pushSubscriptions s))"
  shows "sendPushNotification e userId p s =
    (let subs = filter (\<lambda>r. sub_userId r = userId) (pushSubscriptions s) in
     (Inr \<lparr>success = length (filter (\<lambda>r. webPush_sendNotification e r p = Sent) subs),
           failed = length (filter (\<lambda>r. webPush_sendNotification e r p \<noteq> Sent) subs)\<rparr>,
      s\<lparr>attempts := attempts s @ map (\<lambda>r. (r, p)) subs,
        pushSubscriptions :=
          filter (\<lambda>r. \<not> (sub_userId r = userId \<and> is_gone (webPush_sendNotification e r p)))
            (pushSubscriptions s)\<rparr>))"
proof -
  let ?subs = "filter (\<lambda>r. sub_userId r = userId) (pushSubscriptions s)"
  let ?keep1 = "\<lambda>r. \<forall>x \<in> set ?subs. is_gone (webPush_sendNotification e x p) \<longrightarrow> sub_id r \<noteq> sub_id x"
  let ?keep2 = "\<lambda>r. \<not> (sub_userId r = userId \<and> is_gone (webPush_sendNotification e r p))"
  have del: "\<And>i. \<not> db_rejects e (DeleteSubscription i)" using db by (simp add: db_available_def)
  have sel: "\<not> db_rejects e (SelectSubscriptions userId)" using db by (simp add: db_available_def)
  have inj: "inj_on sub_id (set (pushSubscriptions s))"
    using ids by (simp add: distinct_map)
  have eq: "filter ?keep1 (pushSubscriptions s) = filter ?keep2 (pushSubscriptions s)"
  proof (rule filter_cong[OF refl])
    fix r assume r: "r \<in> set (pushSubscriptions s)"
    show "?keep1 r = ?keep2 r"
      using r inj by (auto dest: inj_onD)
  qed
  show ?thesis
  proof (cases "?subs = []")
    case True
    then have "\<And>r. r \<in> set (pushSubscriptions s) \<Longrightarrow> sub_userId r \<noteq> userId"
      by (auto simp: filter_empty_conv)
    then have "filter ?keep2 (pushSubscriptions s) = pushSubscriptions s"
      by (auto simp: filter_id_conv)
    with True sel show ?thesis by (simp add: sendPushNotification_def Let_def)
  next
    case False
    have "sendPushNotification e userId p s = send_loop e p ?subs \<lparr>success = 0, failed = 0\<rparr> s"
      using False sel by (simp add: sendPushNotification_def Let_def)
    also have "\<dots> = (Inr \<lparr>success = length (filter (\<lambda>r. webPush_sendNotification e r p = Sent) ?subs),
           failed = length (filter (\<lambda>r. webPush_sendNotification e r p \<noteq> Sent) ?subs)\<rparr>,
      s\<lparr>attempts := attempts s @ map (\<lambda>r. (r, p)) ?subs,
        pushSubscriptions := filter ?keep1 (pushSubscriptions s)\<rparr>)"
      by (subst send_loop_result[OF del]) simp
    finally show ?thesis unfolding Let_def eq .
  qed
qed

theorem dispatch_counts_and_pruning_witness:
  "db_available env_ABC \<and> distinct (map sub_id (pushSubscriptions server_ABC)) \<and>
   fst (sendPushNotification env_ABC ''u1'' wake_up server_ABC) = Inr \<lparr>success = 1, failed = 2\<rparr> \<and>
   pushSubscriptions (snd (sendPushNotification env_ABC ''u1'' wake_up server_ABC)) = [subA, subC] \<and>
   map fst (attempts (snd (sendPushNotification env_ABC ''u1'' wake_up server_ABC))) = [subA, subB, subC]"
proof -
  have db: "db_available env_ABC" by (simp add: db_available_def env_ABC_def)
  have ids: "distinct (map sub_id (pushSubscriptions server_ABC))"
    by (simp add: server_ABC_def empty_server_def subA_def subB_def subC_def)
  show ?thesis
    using db ids dispatch_counts_and_pruning [OF db ids, of "''u1''" wake_up]
    by (simp add: server_ABC_def empty_server_def subA_def subB_def subC_def env_ABC_def
        transport_ABC_def)
qed

text \<open>
  C10. When the select succeeds and the user has no registered endpoint, dispatching returns
  counts of zero and leaves the whole server state as it was: no delivery is attempted and
  the registry is not touched.
\<close>

theorem dispatch_without_endpoints:
  assumes "\<not> db_rejects e (SelectSubscriptions userId)"
    and "\<forall>r \<in> set (pushSubscriptions s). sub_userId r \<noteq> userId"
  shows "sendPushNotification e userId p s = (Inr \<lparr>success = 0, failed = 0\<rparr>, s)"
proof -
  have "filter (\<lambda>r. sub_userId r = userId) (pushSubscriptions s) = []"
    using assms(2) by (simp add: filter_empty_conv)
  then show ?thesis using assms(1) by (simp add: sendPushNotification_def)
qed

theorem dispatch_without_endpoints_witness:
  "\<not> db_rejects env_ABC (SelectSubscriptions ''u2'') \<and>
   filter (\<lambda>r. sub_userId r = ''u2'') (pushSubscriptions server_ABC) = [] \<and>
   sendPushNotification env_ABC ''u2'' wake_up server_ABC = (Inr \<lparr>success = 0, failed = 0\<rparr>, server_ABC)"
proof -
  have a: "\<not> db_rejects env_ABC (SelectSubscriptions ''u2'')" by (simp add: env_ABC_def)
  have b: "\<forall>r \<in> set (pushSubscriptions server_ABC). sub_userId r \<noteq> ''u2''"
    by (simp add: server_ABC_def empty_server_def subA_def subB_def subC_def)
  show ?thesis using a b dispatch_without_endpoints [OF a b, of wake_up] by simp
qed

section \<open>Properties of the scheduler\<close>

lemma dispatch_all_append:
  "dispatch_all e (xs @ ys) s =
     (case dispatch_all e xs s of
        (Inl err, s1) \<Rightarrow> (Inl err, s1)
      | (Inr u, s1) \<Rightarrow> dispatch_all e ys s1)"
  by (induction xs arbitrary: s) (auto split: prod.splits sum.splits)

lemma alarm_loop_dispatch:
  "alarm_loop e now as s = dispatch_all e (due_alarms now as) s"
  by (induction as arbitrary: s)
     (auto simp: due_alarms_def due_tag_def due_user_def split: prod.splits sum.splits)

lemma medTime_loop_dispatch:
  "medTime_loop e now m ts s =
     dispatch_all e [(Medicine, med_id m, med_userId m, medicine_payload m). t \<leftarrow> ts, take 5 t = time now] s"
  by (induction ts arbitrary: s)
     (auto simp: due_tag_def due_user_def Let_def split: prod.splits sum.splits)

lemma medicine_loop_dispatch:
  "medicine_loop e now ms s = dispatch_all e (due_medicines now ms) s"
proof (induction ms arbitrary: s)
  case Nil
  show ?case by (simp add: due_medicines_def)
next
  case (Cons m ms)
  have c: "due_medicines now (m # ms) = due_medTimes now m @ due_medicines now ms"
    by (simp add: due_medicines_def)
  show ?case
  proof (cases "med_times m")
    case None
    then show ?thesis using Cons.IH by (simp add: c due_medTimes_def)
  next
    case (Some ts)
    then show ?thesis using Cons.IH
      by (cases ts) (auto simp: c due_medTimes_def medTime_loop_dispatch dispatch_all_append
          simp del: medTime_loop.simps dispatch_all.simps split: prod.splits sum.splits)
  qed
qed

lemma meeting_loop_dispatch:
  "meeting_loop e now ms s = dispatch_all e (due_meetings now ms) s"
  by (induction ms arbitrary: s)
     (auto simp: due_meetings_def due_tag_def due_user_def split: prod.splits sum.splits)

lemma send_loop_frame:
  "alarms (snd (send_loop e p subs c s)) = alarms s \<and>
   medicines (snd (send_loop e p subs c s)) = medicines s \<and>
   meetings (snd (send_loop e p subs c s)) = meetings s \<and>
   triggerLog (snd (send_loop e p subs c s)) = triggerLog s \<and>
   errorLog (snd (send_loop e p subs c s)) = errorLog s"
  by (induction subs arbitrary: c s) (auto simp: Let_def split: send_outcome.splits)

lemma sendPushNotification_frame:
  "alarms (snd (sendPushNotification e u p s)) = alarms s \<and>
   medicines (snd (sendPushNotification e u p s)) = medicines s \<and>
   meetings (snd (sendPushNotification e u p s)) = meetings s \<and>
   triggerLog (snd (sendPushNotification e u p s)) = triggerLog s \<and>
   errorLog (snd (sendPushNotification e u p s)) = errorLog s"
  by (simp add: sendPushNotification_def Let_def send_loop_frame)

lemma dispatch_all_frame:
  "alarms (snd (dispatch_all e ds s)) = alarms s \<and>
   medicines (snd (dispatch_all e ds s)) = medicines s \<and>
   meetings (snd (dispatch_all e ds s)) = meetings s \<and>
   errorLog (snd (dispatch_all e ds s)) = errorLog s"
proof (induction ds arbitrary: s)
  case Nil
  show ?case by simp
next
  case (Cons d ds)
  let ?s0 = "s\<lparr>triggerLog := triggerLog s @ [due_tag d]\<rparr>"
  let ?r = "sendPushNotification e (due_user d) (snd (snd (snd d))) ?s0"
  have f: "alarms (snd ?r) = alarms s \<and> medicines (snd ?r) = medicines s \<and>
           meetings (snd ?r) = meetings s \<and> errorLog (snd ?r) = errorLog s"
    using sendPushNotification_frame[of e "due_user d" "snd (snd (snd d))" ?s0] by simp
  show ?case
  proof (cases ?r)
    case (Pair res s1)
    then show ?thesis using f Cons.IH[of s1] by (cases res) auto
  qed
qed

lemma tick_body_dispatch:
  assumes "\<not> db_rejects e SelectAlarms" "\<not> db_rejects e SelectMedicines"
    "\<not> db_rejects e SelectMeetings"
  shows "tick_body e now s = dispatch_all e (due_items now s) s"
proof -
  let ?A = "due_alarms now (filter alarm_isActive (alarms s))"
  let ?M = "due_medicines now (filter med_isActive (medicines s))"
  let ?G = "due_meetings now (filter meeting_enabled (meetings s))"
  have "dispatch_all e (due_items now s) s =
     (case dispatch_all e ?A s of
        (Inl err, s1) \<Rightarrow> (Inl err, s1)
      | (Inr u, s1) \<Rightarrow>
         (case dispatch_all e ?M s1 of
            (Inl err, s2) \<Rightarrow> (Inl err, s2)
          | (Inr u, s2) \<Rightarrow> dispatch_all e ?G s2))"
    by (simp add: due_items_def dispatch_all_append split: prod.splits sum.splits)
  moreover have "tick_body e now s = \<dots>"
  proof (cases "dispatch_all e ?A s")
    case (Pair r1 s1)
    have m1: "medicines s1 = medicines s" "meetings s1 = meetings s"
      using dispatch_all_frame[of e ?A s] Pair by simp_all
    show ?thesis
    proof (cases r1)
      case (Inl err)
      with Pair assms show ?thesis by (simp add: tick_body_def alarm_loop_dispatch)
    next
      case (Inr u1)
      show ?thesis
      proof (cases "dispatch_all e ?M s1")
        case P2: (Pair r2 s2)
        have m2: "meetings s2 = meetings s"
          using dispatch_all_frame[of e ?M s1] P2 m1 by simp
        show ?thesis using Pair Inr P2 assms m1 m2
          by (cases r2) (simp_all add: tick_body_def alarm_loop_dispatch medicine_loop_dispatch
              meeting_loop_dispatch)
      qed
    qed
  qed
  ultimately show ?thesis by simp
qed

lemma sendPushNotification_outcome:
  assumes "\<And>i. \<not> db_rejects e (DeleteSubscription i)"
  shows "(db_rejects e (SelectSubscriptions u) \<longrightarrow>
            fst (sendPushNotification e u p s) = Inl (DbError (SelectSubscriptions u))) \<and>
         (\<not> db_rejects e (SelectSubscriptions u) \<longrightarrow>
            (\<exists>c. fst (sendPushNotification e u p s) = Inr c))"
  by (simp add: sendPushNotification_def Let_def send_loop_result[OF assms])

lemma dispatch_all_outcome:
  assumes "\<And>i. \<not> db_rejects e (DeleteSubscription i)"
  shows "triggerLog (snd (dispatch_all e ds s)) =
           triggerLog s @ map due_tag (upto_first (dispatch_rejects e) ds) \<and>
         fst (dispatch_all e ds s) =
           (case find (dispatch_rejects e) ds of
              Some d \<Rightarrow> Inl (DbError (SelectSubscriptions (due_user d)))
            | None \<Rightarrow> Inr ())"
proof (induction ds arbitrary: s)
  case Nil
  show ?case by simp
next
  case (Cons d ds)
  let ?s0 = "s\<lparr>triggerLog := triggerLog s @ [due_tag d]\<rparr>"
  let ?r = "sendPushNotification e (due_user d) (snd (snd (snd d))) ?s0"
  have t: "triggerLog (snd ?r) = triggerLog s @ [due_tag d]"
    using sendPushNotification_frame[of e "due_user d" "snd (snd (snd d))" ?s0] by simp
  note o = sendPushNotification_outcome[OF assms, of "due_user d" "snd (snd (snd d))" ?s0]
  show ?case
  proof (cases "dispatch_rejects e d")
    case True
    then have "fst ?r = Inl (DbError (SelectSubscriptions (due_user d)))"
      using o by (simp add: dispatch_rejects_def)
    then show ?thesis using True t by (cases ?r) auto
  next
    case False
    then obtain c where "fst ?r = Inr c" using o by (auto simp: dispatch_rejects_def)
    then show ?thesis using False t Cons.IH[of "snd ?r"] by (cases ?r) auto
  qed
qed

lemma tick_outcome:
  assumes del: "\<And>i. \<not> db_rejects e (DeleteSubscription i)"
    and sel: "\<not> db_rejects e SelectAlarms" "\<not> db_rejects e SelectMedicines"
      "\<not> db_rejects e SelectMeetings"
  shows "triggerLog (checkAndSendAlarms e now s) =
           triggerLog s @ map due_tag (upto_first (dispatch_rejects e) (due_items now s))"
    and "errorLog (checkAndSendAlarms e now s) =
           errorLog s @
           (case find (dispatch_rejects e) (due_items now s) of
              Some d \<Rightarrow> [DbError (SelectSubscriptions (due_user d))]
            | None \<Rightarrow> [])"
proof -
  let ?ds = "due_items now s"
  have b: "tick_body e now s = dispatch_all e ?ds s"
    using sel by (rule tick_body_dispatch)
  note o = dispatch_all_outcome[OF del, of ?ds s]
  have f: "errorLog (snd (dispatch_all e ?ds s)) = errorLog s"
    using dispatch_all_frame[of e ?ds s] by simp
  show "triggerLog (checkAndSendAlarms e now s) =
           triggerLog s @ map due_tag (upto_first (dispatch_rejects e) ?ds)"
    using o by (cases "dispatch_all e ?ds s")
      (auto simp: checkAndSendAlarms_def b split: sum.splits)
  show "errorLog (checkAndSendAlarms e now s) =
           errorLog s @
           (case find (dispatch_rejects e) ?ds of
              Some d \<Rightarrow> [DbError (SelectSubscriptions (due_user d))]
            | None \<Rightarrow> [])"
    using o f by (cases "dispatch_all e ?ds s")
      (auto simp: checkAndSendAlarms_def b split: sum.splits option.splits)
qed

lemma upto_first_never: "(\<And>x. \<not> P x) \<Longrightarrow> upto_first P xs = xs"
  by (induction xs) auto

lemma find_never: "(\<And>x. \<not> P x) \<Longrightarrow> find P xs = None"
  by (induction xs) auto

lemma due_tags_alarms:
  "map due_tag (due_alarms now as) = [(Alarm, alarm_id a). a \<leftarrow> as, alarm_shouldTrigger now a]"
  by (induction as) (auto simp: due_alarms_def due_tag_def)

lemma due_tags_medTimes:
  "map due_tag (due_medTimes now m) =
     (case med_times m of
        Some ts \<Rightarrow> [(Medicine, med_id m). t \<leftarrow> ts, take 5 t = time now] | None \<Rightarrow> [])"
proof (cases "med_times m")
  case None
  then show ?thesis by (simp add: due_medTimes_def)
next
  case (Some ts)
  have "map due_tag [(Medicine, med_id m, med_userId m, medicine_payload m). t \<leftarrow> ts, take 5 t = time now]
      = [(Medicine, med_id m). t \<leftarrow> ts, take 5 t = time now]"
    by (induction ts) (auto simp: due_tag_def)
  with Some show ?thesis by (simp add: due_medTimes_def)
qed

lemma due_tags_medicines:
  "map due_tag (due_medicines now ms) =
     concat (map (\<lambda>m. case med_times m of
        Some ts \<Rightarrow> [(Medicine, med_id m). t \<leftarrow> ts, take 5 t = time now] | None \<Rightarrow> []) ms)"
  by (induction ms) (simp_all add: due_medicines_def due_tags_medTimes)

lemma due_tags_meetings:
  "map due_tag (due_meetings now ms) = [(Meeting, meeting_id m). m \<leftarrow> ms, meeting_shouldTrigger now m]"
  by (induction ms) (auto simp: due_meetings_def due_tag_def)

lemma tick_body_frame:
  "alarms (snd (tick_body e now s)) = alarms s \<and>
   medicines (snd (tick_body e now s)) = medicines s \<and>
   meetings (snd (tick_body e now s)) = meetings s \<and>
   errorLog (snd (tick_body e now s)) = errorLog s"
proof -
  let ?A = "due_alarms now (filter alarm_isActive (alarms s))"
  let ?M = "due_medicines now (filter med_isActive (medicines s))"
  let ?G = "due_meetings now (filter meeting_enabled (meetings s))"
  obtain r1 s1 where p1: "dispatch_all e ?A s = (r1, s1)" by (cases "dispatch_all e ?A s")
  obtain r2 s2 where p2: "dispatch_all e ?M s1 = (r2, s2)" by (cases "dispatch_all e ?M s1")
  obtain r3 s3 where p3: "dispatch_all e ?G s2 = (r3, s3)" by (cases "dispatch_all e ?G s2")
  have f1: "alarms s1 = alarms s" "medicines s1 = medicines s" "meetings s1 = meetings s"
      "errorLog s1 = errorLog s"
    using dispatch_all_frame[of e ?A s] p1 by simp_all
  have f2: "alarms s2 = alarms s" "medicines s2 = medicines s" "meetings s2 = meetings s"
      "errorLog s2 = errorLog s"
    using dispatch_all_frame[of e ?M s1] p2 f1 by simp_all
  have f3: "alarms s3 = alarms s" "medicines s3 = medicines s" "meetings s3 = meetings s"
      "errorLog s3 = errorLog s"
    using dispatch_all_frame[of e ?G s2] p3 f2 by simp_all
  show ?thesis
    using p1 p2 p3 f1 f2 f3
    by (auto simp: tick_body_def Let_def alarm_loop_dispatch medicine_loop_dispatch
        meeting_loop_dispatch split: sum.splits)
qed

lemma tick_frame:
  "alarms (checkAndSendAlarms e now s) = alarms s \<and>
   medicines (checkAndSendAlarms e now s) = medicines s \<and>
   meetings (checkAndSendAlarms e now s) = meetings s"
  using tick_body_frame[of e now s]
  by (cases "tick_body e now s") (auto simp: checkAndSendAlarms_def split: sum.splits)

lemma dispatch_all_prefix:
  "\<exists>n \<le> length ds.
     triggerLog (snd (dispatch_all e ds s)) = triggerLog s @ map due_tag (take n ds) \<and>
     (isl (fst (dispatch_all e ds s)) \<or> n = length ds)"
proof (induction ds arbitrary: s)
  case Nil
  show ?case by simp
next
  case (Cons d ds)
  let ?s0 = "s\<lparr>triggerLog := triggerLog s @ [due_tag d]\<rparr>"
  let ?r = "sendPushNotification e (due_user d) (snd (snd (snd d))) ?s0"
  have t: "triggerLog (snd ?r) = triggerLog s @ [due_tag d]"
    using sendPushNotification_frame[of e "due_user d" "snd (snd (snd d))" ?s0] by simp
  obtain res s1 where r: "?r = (res, s1)" by (cases ?r)
  show ?case
  proof (cases res)
    case (Inl err)
    then have "dispatch_all e (d # ds) s = (Inl err, s1)" using r by simp
    then have "triggerLog (snd (dispatch_all e (d # ds) s)) = triggerLog s @ map due_tag (take 1 (d # ds))
        \<and> isl (fst (dispatch_all e (d # ds) s))"
      using t r by simp
    then show ?thesis by (intro exI[of _ 1]) simp
  next
    case (Inr c)
    then have eq: "dispatch_all e (d # ds) s = dispatch_all e ds s1" using r by simp
    from Cons.IH[of s1] obtain n where n: "n \<le> length ds"
      "triggerLog (snd (dispatch_all e ds s1)) = triggerLog s1 @ map due_tag (take n ds)"
      "isl (fst (dispatch_all e ds s1)) \<or> n = length ds" by blast
    have "triggerLog s1 = triggerLog s @ [due_tag d]" using t r by simp
    then show ?thesis using n eq by (intro exI[of _ "Suc n"]) simp
  qed
qed

lemma tick_body_prefix:
  "\<exists>n \<le> length (due_items now s).
     triggerLog (snd (tick_body e now s)) = triggerLog s @ map due_tag (take n (due_items now s)) \<and>
     (isl (fst (tick_body e now s)) \<or> n = length (due_items now s))"
proof -
  let ?A = "due_alarms now (filter alarm_isActive (alarms s))"
  let ?M = "due_medicines now (filter med_isActive (medicines s))"
  let ?G = "due_meetings now (filter meeting_enabled (meetings s))"
  have d: "due_items now s = ?A @ ?M @ ?G" by (simp add: due_items_def)
  obtain r1 s1 where p1: "dispatch_all e ?A s = (r1, s1)" by (cases "dispatch_all e ?A s")
  obtain r2 s2 where p2: "dispatch_all e ?M s1 = (r2, s2)" by (cases "dispatch_all e ?M s1")
  obtain r3 s3 where p3: "dispatch_all e ?G s2 = (r3, s3)" by (cases "dispatch_all e ?G s2")
  have f1: "medicines s1 = medicines s" "meetings s1 = meetings s"
    using dispatch_all_frame[of e ?A s] p1 by simp_all
  have f2: "meetings s2 = meetings s"
    using dispatch_all_frame[of e ?M s1] p2 f1 by simp
  obtain n1 where n1: "n1 \<le> length ?A" "triggerLog s1 = triggerLog s @ map due_tag (take n1 ?A)"
      "isl r1 \<or> n1 = length ?A"
    using dispatch_all_prefix[of ?A e s] p1 by auto
  obtain n2 where n2: "n2 \<le> length ?M" "triggerLog s2 = triggerLog s1 @ map due_tag (take n2 ?M)"
      "isl r2 \<or> n2 = length ?M"
    using dispatch_all_prefix[of ?M e s1] p2 by auto
  obtain n3 where n3: "n3 \<le> length ?G" "triggerLog s3 = triggerLog s2 @ map due_tag (take n3 ?G)"
      "isl r3 \<or> n3 = length ?G"
    using dispatch_all_prefix[of ?G e s2] p3 by auto
  show ?thesis
  proof (cases "db_rejects e SelectAlarms")
    case True
    then show ?thesis by (intro exI[of _ 0]) (simp add: tick_body_def)
  next
    case a: False
    show ?thesis
    proof (cases r1)
      case (Inl err)
      then have "tick_body e now s = (Inl err, s1)"
        using a p1 by (simp add: tick_body_def alarm_loop_dispatch)
      then show ?thesis using n1 d by (intro exI[of _ n1]) simp
    next
      case i1: (Inr u1)
      then have l1: "n1 = length ?A" using n1 by simp
      show ?thesis
      proof (cases "db_rejects e SelectMedicines")
        case True
        then have "tick_body e now s = (Inl (DbError SelectMedicines), s1)"
          using a p1 i1 by (simp add: tick_body_def alarm_loop_dispatch)
        then show ?thesis using n1 d by (intro exI[of _ n1]) simp
      next
        case b: False
        show ?thesis
        proof (cases r2)
          case (Inl err)
          then have "tick_body e now s = (Inl err, s2)"
            using a b p1 i1 p2 f1
            by (simp add: tick_body_def alarm_loop_dispatch medicine_loop_dispatch)
          then show ?thesis using n1 n2 l1 d by (intro exI[of _ "length ?A + n2"]) simp
        next
          case i2: (Inr u2)
          then have l2: "n2 = length ?M" using n2 by simp
          show ?thesis
          proof (cases "db_rejects e SelectMeetings")
            case True
            then have "tick_body e now s = (Inl (DbError SelectMeetings), s2)"
              using a b p1 i1 p2 i2 f1
              by (simp add: tick_body_def alarm_loop_dispatch medicine_loop_dispatch)
            then show ?thesis using n1 n2 l1 l2 d
              by (intro exI[of _ "length ?A + length ?M"]) simp
          next
            case c: False
            then have "tick_body e now s = (r3, s3)"
              using a b p1 i1 p2 i2 p3 f1 f2
              by (simp add: tick_body_def alarm_loop_dispatch medicine_loop_dispatch
                  meeting_loop_dispatch)
            then show ?thesis using n1 n2 n3 l1 l2 d
              by (intro exI[of _ "length ?A + length ?M + n3"]) auto
          qed
        qed
      qed
    qed
  qed
qed

lemma tick_prefix:
  "\<exists>n \<le> length (due_items now s).
     triggerLog (checkAndSendAlarms e now s) = triggerLog s @ map due_tag (take n (due_items now s)) \<and>
     (errorLog (checkAndSendAlarms e now s) = errorLog s \<and> n = length (due_items now s) \<or>
      (\<exists>err. errorLog (checkAndSendAlarms e now s) = errorLog s @ [err]))"
proof -
  obtain n where n: "n \<le> length (due_items now s)"
     "triggerLog (snd (tick_body e now s)) = triggerLog s @ map due_tag (take n (due_items now s))"
     "isl (fst (tick_body e now s)) \<or> n = length (due_items now s)"
    using tick_body_prefix[of now s e] by blast
  have el: "errorLog (snd (tick_body e now s)) = errorLog s"
    using tick_body_frame[of e now s] by simp
  obtain r s1 where p: "tick_body e now s = (r, s1)" by (cases "tick_body e now s")
  show ?thesis
    using n el p by (intro exI[of _ n]) (cases r; auto simp: checkAndSendAlarms_def)
qed

subsection \<open>The example schedule\<close>

lemmas example_defs = monday_0700_def flight_alarm_def gym_alarm_def pills_def standup_def
  server_busy_def empty_server_def

lemma due_items_busy:
  "due_items monday_0700 server_busy =
     [(Alarm, 7, ''u1'', alarm_payload flight_alarm), (Alarm, 8, ''u2'', alarm_payload gym_alarm),
      (Medicine, 3, ''u2'', medicine_payload pills), (Meeting, 5, ''u1'', meeting_payload standup)]"
  by (simp add: due_items_def due_alarms_def due_medicines_def due_medTimes_def due_meetings_def
      alarm_shouldTrigger_def meeting_shouldTrigger_def example_defs)

lemma tick_u1_down:
  "triggerLog (checkAndSendAlarms env_u1_down monday_0700 server_busy) = [(Alarm, 7)] \<and>
   errorLog (checkAndSendAlarms env_u1_down monday_0700 server_busy) = [DbError (SelectSubscriptions ''u1'')]"
proof -
  have e: "\<And>i. \<not> db_rejects env_u1_down (DeleteSubscription i)" "\<not> db_rejects env_u1_down SelectAlarms"
    "\<not> db_rejects env_u1_down SelectMedicines" "\<not> db_rejects env_u1_down SelectMeetings"
    by (simp_all add: env_u1_down_def)
  have s: "triggerLog server_busy = []" "errorLog server_busy = []"
    by (simp_all add: server_busy_def empty_server_def)
  have r: "\<And>d. dispatch_rejects env_u1_down d = (due_user d = ''u1'')"
    by (simp add: dispatch_rejects_def env_u1_down_def)
  show ?thesis
    using tick_outcome[OF e, of monday_0700 server_busy]
    by (simp add: s r due_items_busy due_user_def due_tag_def)
qed

lemma tick_all_up:
  "triggerLog (checkAndSendAlarms env_ABC monday_0700 server_busy) =
     [(Alarm, 7), (Alarm, 8), (Medicine, 3), (Meeting, 5)]"
proof -
  have r: "\<And>x. \<not> dispatch_rejects env_ABC x" by (simp add: dispatch_rejects_def env_ABC_def)
  have "triggerLog (checkAndSendAlarms env_ABC monday_0700 server_busy) =
     triggerLog server_busy @ map due_tag (due_items monday_0700 server_busy)"
    using tick_outcome(1)[of env_ABC monday_0700 server_busy]
    by (simp add: upto_first_never[OF r]) (simp add: env_ABC_def)
  then show ?thesis
    by (simp add: due_items_busy due_tag_def) (simp add: server_busy_def empty_server_def)
qed

subsection \<open>The scheduler and the schedule store\<close>

text \<open>
  C3, as the code has it. The scheduler only reads the schedule store: whatever the
  environment does, a tick leaves the alarms, the medicines and the meetings exactly as they
  were, so an item that was fired, one-shot or not, keeps its flag and is due at any later
  instant at which it was due before.
\<close>

theorem scheduler_leaves_schedule_store:
  "alarms (checkAndSendAlarms e now s) = alarms s \<and>
   medicines (checkAndSendAlarms e now s) = medicines s \<and>
   meetings (checkAndSendAlarms e now s) = meetings s \<and>
   due_items now' (checkAndSendAlarms e now s) = due_items now' s"
  using tick_frame[of e now s] by (simp add: due_items_def)

text \<open>
  Against C3 as stated: on the example schedule the tick fires the date alarm 7 and the
  meeting 5, and afterwards both are still active.
\<close>

theorem one_shot_stays_active_counterexample:
  "alarm_date flight_alarm = Some ''2026-01-05'' \<and>
   triggerLog (checkAndSendAlarms env_ABC monday_0700 server_busy) =
     [(Alarm, 7), (Alarm, 8), (Medicine, 3), (Meeting, 5)] \<and>
   map alarm_isActive (alarms (checkAndSendAlarms env_ABC monday_0700 server_busy)) = [True, True] \<and>
   map meeting_enabled (meetings (checkAndSendAlarms env_ABC monday_0700 server_busy)) = [True]"
proof -
  have 2: "alarm_date flight_alarm = Some ''2026-01-05''" by (simp add: flight_alarm_def)
  show ?thesis using tick_all_up 2 tick_frame[of env_ABC monday_0700 server_busy]
    by (simp add: example_defs)
qed

subsection \<open>Errors during a tick\<close>

lemma send_loop_no_error:
  assumes "\<forall>x \<in> set subs. is_gone (webPush_sendNotification e x p) \<longrightarrow>
             \<not> db_rejects e (DeleteSubscription (sub_id x))"
  shows "send_loop e p subs c s =
    (Inr \<lparr>success = success c + length (filter (\<lambda>r. webPush_sendNotification e r p = Sent) subs),
          failed = failed c + length (filter (\<lambda>r. webPush_sendNotification e r p \<noteq> Sent) subs)\<rparr>,
     s\<lparr>attempts := attempts s @ map (\<lambda>r. (r, p)) subs,
       pushSubscriptions :=
         filter (\<lambda>r. \<forall>x \<in> set subs. is_gone (webPush_sendNotification e x p) \<longrightarrow> sub_id r \<noteq> sub_id x)
           (pushSubscriptions s)\<rparr>)"
  using assms
proof (induction subs arbitrary: c s)
  case Nil
  show ?case by simp
next
  case (Cons sub subs)
  have ih: "\<And>c s. send_loop e p subs c s =
    (Inr \<lparr>success = success c + length (filter (\<lambda>r. webPush_sendNotification e r p = Sent) subs),
          failed = failed c + length (filter (\<lambda>r. webPush_sendNotification e r p \<noteq> Sent) subs)\<rparr>,
     s\<lparr>attempts := attempts s @ map (\<lambda>r. (r, p)) subs,
       pushSubscriptions :=
         filter (\<lambda>r. \<forall>x \<in> set subs. is_gone (webPush_sendNotification e x p) \<longrightarrow> sub_id r \<noteq> sub_id x)
           (pushSubscriptions s)\<rparr>)"
    using Cons.IH Cons.prems by simp
  show ?case
  proof (cases "webPush_sendNotification e sub p")
    case Sent
    then show ?thesis by (simp add: Let_def ih)
  next
    case (Threw code)
    show ?thesis
    proof (cases "code = Some 410 \<or> code = Some 404")
      case True
      then have "\<not> db_rejects e (DeleteSubscription (sub_id sub))"
        using Cons.prems Threw by simp
      with True Threw show ?thesis
        by (auto simp add: Let_def ih intro!: filter_cong)
    next
      case False
      with Threw show ?thesis by (simp add: Let_def ih)
    qed
  qed
qed

lemma send_loop_error:
  assumes "find (\<lambda>r. is_gone (webPush_sendNotification e r p) \<and>
                      db_rejects e (DeleteSubscription (sub_id r))) subs = Some r"
  shows "fst (send_loop e p subs c s) = Inl (DbError (DeleteSubscription (sub_id r)))"
  using assms
proof (induction subs arbitrary: c s)
  case Nil
  then show ?case by simp
next
  case (Cons sub subs)
  show ?case
  proof (cases "is_gone (webPush_sendNotification e sub p) \<and>
                db_rejects e (DeleteSubscription (sub_id sub))")
    case True
    then have "r = sub" using Cons.prems by (auto split: if_splits)
    then show ?thesis using True
      by (cases "webPush_sendNotification e sub p") (simp_all add: Let_def)
  next
    case False
    then have f: "find (\<lambda>r. is_gone (webPush_sendNotification e r p) \<and>
                      db_rejects e (DeleteSubscription (sub_id r))) subs = Some r"
      using Cons.prems by (auto split: if_splits)
    note ih = Cons.IH[OF f]
    show ?thesis
    proof (cases "webPush_sendNotification e sub p")
      case Sent
      then show ?thesis by (simp add: Let_def ih)
    next
      case (Threw code)
      then show ?thesis using False by (auto simp add: Let_def ih)
    qed
  qed
qed

lemma sendPushNotification_general:
  "(case dispatch_error e (pushSubscriptions s) u p of
      Some err \<Rightarrow> fst (sendPushNotification e u p s) = Inl err
    | None \<Rightarrow>
        (\<exists>c. fst (sendPushNotification e u p s) = Inr c) \<and>
        pushSubscriptions (snd (sendPushNotification e u p s)) =
          registry_after e (pushSubscriptions s) u p)"
proof (cases "db_rejects e (SelectSubscriptions u)")
  case True
  then show ?thesis by (simp add: dispatch_error_def sendPushNotification_def)
next
  case False
  let ?subs = "filter (\<lambda>r. sub_userId r = u) (pushSubscriptions s)"
  let ?bad = "\<lambda>r. is_gone (webPush_sendNotification e r p) \<and>
                     db_rejects e (DeleteSubscription (sub_id r))"
  show ?thesis
  proof (cases "?subs = []")
    case True
    then show ?thesis using False
      by (simp add: dispatch_error_def sendPushNotification_def registry_after_def)
  next
    case ne: False
    have eq: "sendPushNotification e u p s = send_loop e p ?subs \<lparr>success = 0, failed = 0\<rparr> s"
      using False ne by (simp add: sendPushNotification_def Let_def)
    show ?thesis
    proof (cases "find ?bad ?subs")
      case None
      then have ok: "\<forall>x \<in> set ?subs. is_gone (webPush_sendNotification e x p) \<longrightarrow>
             \<not> db_rejects e (DeleteSubscription (sub_id x))"
        by (auto simp: find_None_iff)
      have d: "dispatch_error e (pushSubscriptions s) u p = None"
        using None False by (simp add: dispatch_error_def)
      show ?thesis
        unfolding d eq send_loop_no_error[OF ok] by (simp add: registry_after_def)
    next
      case (Some r)
      have d: "dispatch_error e (pushSubscriptions s) u p = Some (DbError (DeleteSubscription (sub_id r)))"
        using Some False by (simp add: dispatch_error_def)
      show ?thesis unfolding d eq using send_loop_error[OF Some] by simp
    qed
  qed
qed


lemma dispatch_all_reached:
  "triggerLog (snd (dispatch_all e ds s)) =
     triggerLog s @ map due_tag (fst (reached e ds (pushSubscriptions s))) \<and>
   fst (dispatch_all e ds s) =
     (case snd (reached e ds (pushSubscriptions s)) of Some err \<Rightarrow> Inl err | None \<Rightarrow> Inr ())"
proof (induction ds arbitrary: s)
  case Nil
  show ?case by simp
next
  case (Cons d ds)
  let ?u = "due_user d" and ?p = "snd (snd (snd d))"
  let ?s0 = "s\<lparr>triggerLog := triggerLog s @ [due_tag d]\<rparr>"
  let ?r = "sendPushNotification e ?u ?p ?s0"
  have t: "triggerLog (snd ?r) = triggerLog s @ [due_tag d]"
    using sendPushNotification_frame[of e ?u ?p ?s0] by simp
  have reg0: "pushSubscriptions ?s0 = pushSubscriptions s" by simp
  note g = sendPushNotification_general[where e = e and s = ?s0 and u = ?u and p = ?p, unfolded reg0]
  obtain res s1 where r: "?r = (res, s1)" by (cases ?r)
  show ?case
  proof (cases "dispatch_error e (pushSubscriptions s) ?u ?p")
    case (Some err)
    then have "res = Inl err" using g r by simp
    then have "dispatch_all e (d # ds) s = (Inl err, s1)" using r by simp
    then show ?thesis using Some t r by simp
  next
    case None
    then obtain c where c: "res = Inr c" and reg: "pushSubscriptions s1 = registry_after e (pushSubscriptions s) ?u ?p"
      using g r by auto
    have eq: "dispatch_all e (d # ds) s = dispatch_all e ds s1" using r c by simp
    have t1: "triggerLog s1 = triggerLog s @ [due_tag d]" using t r by simp
    show ?thesis
      unfolding eq using Cons.IH[of s1] None
      by (simp add: t1 reg split: prod.splits)
  qed
qed

lemma tick_reached:
  assumes "\<not> db_rejects e SelectAlarms" "\<not> db_rejects e SelectMedicines"
    "\<not> db_rejects e SelectMeetings"
  shows "triggerLog (checkAndSendAlarms e now s) =
           triggerLog s @ map due_tag (fst (reached e (due_items now s) (pushSubscriptions s))) \<and>
         errorLog (checkAndSendAlarms e now s) =
           errorLog s @
           (case snd (reached e (due_items now s) (pushSubscriptions s)) of
              Some err \<Rightarrow> [err] | None \<Rightarrow> [])"
proof -
  let ?ds = "due_items now s"
  have b: "tick_body e now s = dispatch_all e ?ds s" using assms by (rule tick_body_dispatch)
  note o = dispatch_all_reached[of e ?ds s]
  have f: "errorLog (snd (dispatch_all e ?ds s)) = errorLog s"
    using dispatch_all_frame[of e ?ds s] by simp
  obtain res s1 where p: "dispatch_all e ?ds s = (res, s1)" by (cases "dispatch_all e ?ds s")
  show ?thesis
    using o f p
    by (cases "snd (reached e ?ds (pushSubscriptions s))")
       (auto simp: checkAndSendAlarms_def b)
qed

lemma reached_prefix:
  "\<exists>n. fst (reached e ds reg) = take n ds \<and>
       (case snd (reached e ds reg) of
          None \<Rightarrow> n = length ds
        | Some err \<Rightarrow> 0 < n \<and> n \<le> length ds)"
proof (induction ds arbitrary: reg)
  case Nil
  show ?case by simp
next
  case (Cons d ds)
  show ?case
  proof (cases "dispatch_error e reg (due_user d) (snd (snd (snd d)))")
    case (Some err)
    then show ?thesis by (intro exI[of _ 1]) simp
  next
    case None
    let ?reg = "registry_after e reg (due_user d) (snd (snd (snd d)))"
    obtain n where n: "fst (reached e ds ?reg) = take n ds"
      "case snd (reached e ds ?reg) of None \<Rightarrow> n = length ds | Some err \<Rightarrow> 0 < n \<and> n \<le> length ds"
      using Cons.IH[of ?reg] by blast
    show ?thesis
      using None n by (intro exI[of _ "Suc n"]) (auto split: prod.splits option.splits)
  qed
qed

text \<open>
  C6, as the code has it. The tick has one handler around its three loops. For every
  environment the items it has logged and handed to the dispatcher are a prefix of the due
  items, and either no error is logged and that prefix is the whole list, or exactly one
  error is logged. When the tick's own three selects succeed, the tick goes through the due
  items, with the registry as the dispatches leave it, up to and including the first item
  whose dispatch rejects, be it by the select of the owner's subscriptions or by the delete
  of a subscription that answered 410 or 404: that item is the last one logged, its error is
  the one error logged, and no later item, of whatever kind, is evaluated; with no such item
  all are evaluated and nothing is logged as an error. A dispatch rejects exactly with
  \<open>dispatch_error\<close>. When no delete rejects, the item at which the tick stops is the first
  whose owner's select rejects.
\<close>

theorem tick_stops_at_first_rejected_dispatch:
  "(\<exists>n \<le> length (due_items now s).
      triggerLog (checkAndSendAlarms e now s) =
        triggerLog s @ map due_tag (take n (due_items now s)) \<and>
      (errorLog (checkAndSendAlarms e now s) = errorLog s \<and> n = length (due_items now s) \<or>
       (\<exists>err. errorLog (checkAndSendAlarms e now s) = errorLog s @ [err]))) \<and>
   (\<not> db_rejects e SelectAlarms \<and> \<not> db_rejects e SelectMedicines \<and>
    \<not> db_rejects e SelectMeetings \<longrightarrow>
      triggerLog (checkAndSendAlarms e now s) =
        triggerLog s @ map due_tag (fst (reached e (due_items now s) (pushSubscriptions s))) \<and>
      errorLog (checkAndSendAlarms e now s) =
        errorLog s @
        (case snd (reached e (due_items now s) (pushSubscriptions s)) of
           Some err \<Rightarrow> [err]
         | None \<Rightarrow> [])) \<and>
   (\<exists>n. fst (reached e ds reg) = take n ds \<and>
        (case snd (reached e ds reg) of
           None \<Rightarrow> n = length ds
         | Some err \<Rightarrow> 0 < n \<and> n \<le> length ds)) \<and>
   (case dispatch_error e (pushSubscriptions s) u p of
      Some err \<Rightarrow> fst (sendPushNotification e u p s) = Inl err
    | None \<Rightarrow>
        (\<exists>c. fst (sendPushNotification e u p s) = Inr c) \<and>
        pushSubscriptions (snd (sendPushNotification e u p s)) =
          registry_after e (pushSubscriptions s) u p) \<and>
   ((\<forall>i. \<not> db_rejects e (DeleteSubscription i)) \<and> \<not> db_rejects e SelectAlarms \<and>
    \<not> db_rejects e SelectMedicines \<and> \<not> db_rejects e SelectMeetings \<longrightarrow>
      triggerLog (checkAndSendAlarms e now s) =
        triggerLog s @ map due_tag (upto_first (dispatch_rejects e) (due_items now s)) \<and>
      errorLog (checkAndSendAlarms e now s) =
        errorLog s @
        (case find (dispatch_rejects e) (due_items now s) of
           Some d \<Rightarrow> [DbError (SelectSubscriptions (due_user d))]
         | None \<Rightarrow> []))"
  using tick_prefix[of now s e] tick_reached[of e now s] reached_prefix[of e ds reg]
    sendPushNotification_general[where e = e and s = s and u = u and p = p]
    tick_outcome[of e now s]
  by (intro conjI impI) blast+

lemma reached_delete_down:
  "reached env_delete_down (due_items monday_0700 server_busy) (pushSubscriptions server_busy) =
     ([(Alarm, 7, ''u1'', alarm_payload flight_alarm)], Some (DbError (DeleteSubscription 2)))"
proof -
  have p: "pushSubscriptions server_busy = [subA, subB, subC]"
    by (simp add: server_busy_def empty_server_def)
  show ?thesis
    unfolding due_items_busy p
    by (simp add: due_user_def dispatch_error_def env_delete_down_def
        transport_ABC_def subA_def subB_def subC_def)
qed

lemma reached_u2_down:
  "reached env_u2_down (due_items monday_0700 server_busy) (pushSubscriptions server_busy) =
     ([(Alarm, 7, ''u1'', alarm_payload flight_alarm), (Alarm, 8, ''u2'', alarm_payload gym_alarm)],
      Some (DbError (SelectSubscriptions ''u2'')))"
proof -
  have p: "pushSubscriptions server_busy = [subA, subB, subC]"
    by (simp add: server_busy_def empty_server_def)
  show ?thesis
    unfolding due_items_busy p
    by (simp add: due_user_def dispatch_error_def registry_after_def env_u2_down_def
        transport_ABC_def subA_def subB_def subC_def)
qed

theorem tick_stops_at_first_rejected_dispatch_witness:
  "triggerLog (checkAndSendAlarms env_delete_down monday_0700 server_busy) = [(Alarm, 7)] \<and>
   errorLog (checkAndSendAlarms env_delete_down monday_0700 server_busy) =
      [DbError (DeleteSubscription 2)] \<and>
   triggerLog (checkAndSendAlarms env_u2_down monday_0700 server_busy) = [(Alarm, 7), (Alarm, 8)] \<and>
   errorLog (checkAndSendAlarms env_u2_down monday_0700 server_busy) =
      [DbError (SelectSubscriptions ''u2'')]"
proof -
  have d: "\<not> db_rejects env_delete_down SelectAlarms \<and> \<not> db_rejects env_delete_down SelectMedicines \<and>
    \<not> db_rejects env_delete_down SelectMeetings"
    by (simp add: env_delete_down_def)
  have e: "\<not> db_rejects env_u2_down SelectAlarms \<and> \<not> db_rejects env_u2_down SelectMedicines \<and>
    \<not> db_rejects env_u2_down SelectMeetings"
    by (simp add: env_u2_down_def)
  have s: "triggerLog server_busy = []" "errorLog server_busy = []"
    by (simp_all add: server_busy_def empty_server_def)
  note t1 = tick_stops_at_first_rejected_dispatch[where e = env_delete_down and now = monday_0700
      and s = server_busy, THEN conjunct2, THEN conjunct1]
  note t2 = tick_stops_at_first_rejected_dispatch[where e = env_u2_down and now = monday_0700
      and s = server_busy, THEN conjunct2, THEN conjunct1]
  have 1: "triggerLog (checkAndSendAlarms env_delete_down monday_0700 server_busy) = [(Alarm, 7)] \<and>
   errorLog (checkAndSendAlarms env_delete_down monday_0700 server_busy) =
      [DbError (DeleteSubscription 2)]"
    using t1 d by (simp add: s reached_delete_down due_tag_def)
  have 2: "triggerLog (checkAndSendAlarms env_u2_down monday_0700 server_busy) = [(Alarm, 7), (Alarm, 8)] \<and>
   errorLog (checkAndSendAlarms env_u2_down monday_0700 server_busy) =
      [DbError (SelectSubscriptions ''u2'')]"
    using t2 e by (simp add: s reached_u2_down due_tag_def)
  show ?thesis using 1 2 by simp
qed

text \<open>
  Against C6 as stated: with the select of u1's subscriptions rejected, the first due item
  (alarm 7 of u1) ends the tick; alarm 8, medicine 3 and meeting 5 were due and are never
  evaluated.
\<close>

theorem tick_aborted_counterexample:
  "map due_tag (due_items monday_0700 server_busy) =
      [(Alarm, 7), (Alarm, 8), (Medicine, 3), (Meeting, 5)] \<and>
   triggerLog (checkAndSendAlarms env_u1_down monday_0700 server_busy) = [(Alarm, 7)] \<and>
   attempts (checkAndSendAlarms env_u1_down monday_0700 server_busy) = [] \<and>
   errorLog (checkAndSendAlarms env_u1_down monday_0700 server_busy) =
      [DbError (SelectSubscriptions ''u1'')]"
proof -
  have "attempts (checkAndSendAlarms env_u1_down monday_0700 server_busy) = []"
    by (simp add: checkAndSendAlarms_def tick_body_def alarm_shouldTrigger_def
        sendPushNotification_def env_u1_down_def example_defs)
  then show ?thesis using tick_u1_down by (simp add: due_items_busy due_tag_def)
qed

subsection \<open>Due decisions of the scheduler and of the polling loop\<close>

lemma tick_all_fired:
  assumes "db_available e"
  shows "triggerLog (checkAndSendAlarms e now s) =
     triggerLog s
     @ [(Alarm, alarm_id a). a \<leftarrow> filter alarm_isActive (alarms s), alarm_shouldTrigger now a]
     @ concat (map (\<lambda>m. case med_times m of
                           Some ts \<Rightarrow> [(Medicine, med_id m). t \<leftarrow> ts, take 5 t = time now]
                         | None \<Rightarrow> [])
                 (filter med_isActive (medicines s)))
     @ [(Meeting, meeting_id m). m \<leftarrow> filter meeting_enabled (meetings s), meeting_shouldTrigger now m]"
proof -
  have r: "\<And>x. \<not> dispatch_rejects e x" using assms by (simp add: dispatch_rejects_def db_available_def)
  have "triggerLog (checkAndSendAlarms e now s) = triggerLog s @ map due_tag (due_items now s)"
    using tick_outcome(1)[of e now s] assms
    by (simp add: upto_first_never[OF r] db_available_def)
  then show ?thesis
    by (simp add: due_items_def due_tags_alarms due_tags_medicines due_tags_meetings)
qed

lemma server_alarm_cases:
  "(truthy (alarm_date a) \<longrightarrow>
      alarm_shouldTrigger now a =
        (take 5 (alarm_time a) = time now \<and> alarm_date a = Some (date now))) \<and>
   (\<not> truthy (alarm_date a) \<and> alarm_days a = Some ds \<and> ds \<noteq> [] \<longrightarrow>
      alarm_shouldTrigger now a = (take 5 (alarm_time a) = time now \<and> day now \<in> set ds)) \<and>
   (\<not> truthy (alarm_date a) \<and> (alarm_days a = None \<or> alarm_days a = Some []) \<longrightarrow>
      alarm_shouldTrigger now a = (take 5 (alarm_time a) = time now))"
  by (auto simp: alarm_shouldTrigger_def Let_def)

lemma client_alarm_agrees:
  assumes "length (alarm_time a) \<le> 5" "date now \<noteq> []"
    and "\<not> (truthy (alarm_date a) \<and> (\<exists>ds. alarm_days a = Some ds \<and> ds \<noteq> []))"
  shows "poll_alarm_matches now a = alarm_shouldTrigger now a"
proof (cases "alarm_date a")
  case None
  then show ?thesis using assms
    by (cases "alarm_days a") (auto simp: poll_alarm_matches_def poll_isDateMatch_def alarm_shouldTrigger_def Let_def)
next
  case (Some d)
  then show ?thesis using assms
    by (cases "alarm_days a") (auto simp: poll_alarm_matches_def poll_isDateMatch_def alarm_shouldTrigger_def Let_def)
qed

lemma client_medicine_agrees:
  assumes "med_times m = Some ts" "\<forall>t \<in> set ts. length t \<le> 5"
  shows "poll_medicine_matches now m = (\<exists>t \<in> set ts. take 5 t = time now)"
  using assms by (auto simp: poll_medicine_matches_def)

lemma client_meeting_agrees:
  assumes "length (meeting_time m) \<le> 5"
  shows "poll_meeting_matches now m = meeting_shouldTrigger now m"
  using assms by (auto simp: poll_meeting_matches_def meeting_shouldTrigger_def Let_def)

lemma poll_fresh_alarm:
  "presentLog (poll now nowMs [a] [] [] (initial_client db)) =
     (if alarm_isActive a \<and> poll_alarm_matches now a then [(Alarm, alarm_id a)] else [])"
  by (simp add: poll_def poll_alarm_def triggerAlarm_def isDedupBlocked_def initial_client_def Let_def)

lemma poll_fresh_medicine:
  "presentLog (poll now nowMs [] [m] [] (initial_client db)) =
     (if poll_medicine_matches now m then [(Medicine, med_id m)] else [])"
  by (simp add: poll_def poll_medicine_def triggerAlarm_def isDedupBlocked_def initial_client_def Let_def)

lemma poll_fresh_meeting:
  "presentLog (poll now nowMs [] [] [g] (initial_client db)) =
     (if meeting_enabled g \<and> poll_meeting_matches now g then [(Meeting, meeting_id g)] else [])"
  by (simp add: poll_def poll_meeting_def triggerAlarm_def isDedupBlocked_def initial_client_def Let_def)

text \<open>
  C1, as the code has it. When the database operations succeed, a tick logs and dispatches
  exactly the active alarms for which \<open>alarm_shouldTrigger\<close> holds, then one entry for every
  matching time of every active medicine, then the enabled meetings whose time and date
  match, all compared with the first five characters (HH:MM) of the stored time. An alarm
  with a date is due iff time and date match; without a date and with recurring days, iff
  the time matches and the weekday is among the days; with neither, iff the time matches.
  A freshly mounted client presents an item iff its own condition holds, and that condition
  agrees with the scheduler's for an alarm whose stored time has at most five characters and
  which does not have both a date and recurring days, for a medicine whose times have at most
  five characters, and for a meeting whose time has at most five characters.
\<close>

theorem due_decisions:
  "(db_available e \<longrightarrow>
      triggerLog (checkAndSendAlarms e now s) =
        triggerLog s
        @ [(Alarm, alarm_id a). a \<leftarrow> filter alarm_isActive (alarms s), alarm_shouldTrigger now a]
        @ concat (map (\<lambda>m. case med_times m of
                              Some ts \<Rightarrow> [(Medicine, med_id m). t \<leftarrow> ts, take 5 t = time now]
                            | None \<Rightarrow> [])
                    (filter med_isActive (medicines s)))
        @ [(Meeting, meeting_id g). g \<leftarrow> filter meeting_enabled (meetings s),
             meeting_shouldTrigger now g]) \<and>
   (truthy (alarm_date a) \<longrightarrow>
      alarm_shouldTrigger now a =
        (take 5 (alarm_time a) = time now \<and> alarm_date a = Some (date now))) \<and>
   (\<not> truthy (alarm_date a) \<and> alarm_days a = Some ds \<and> ds \<noteq> [] \<longrightarrow>
      alarm_shouldTrigger now a = (take 5 (alarm_time a) = time now \<and> day now \<in> set ds)) \<and>
   (\<not> truthy (alarm_date a) \<and> (alarm_days a = None \<or> alarm_days a = Some []) \<longrightarrow>
      alarm_shouldTrigger now a = (take 5 (alarm_time a) = time now)) \<and>
   meeting_shouldTrigger now g = (take 5 (meeting_time g) = time now \<and> meeting_date g = date now) \<and>
   presentLog (poll now nowMs [a] [] [] (initial_client db)) =
     (if alarm_isActive a \<and> poll_alarm_matches now a then [(Alarm, alarm_id a)] else []) \<and>
   presentLog (poll now nowMs [] [m] [] (initial_client db)) =
     (if poll_medicine_matches now m then [(Medicine, med_id m)] else []) \<and>
   presentLog (poll now nowMs [] [] [g] (initial_client db)) =
     (if meeting_enabled g \<and> poll_meeting_matches now g then [(Meeting, meeting_id g)] else []) \<and>
   (length (alarm_time a) \<le> 5 \<and> date now \<noteq> [] \<and>
    \<not> (truthy (alarm_date a) \<and> (\<exists>ds. alarm_days a = Some ds \<and> ds \<noteq> [])) \<longrightarrow>
      poll_alarm_matches now a = alarm_shouldTrigger now a) \<and>
   (med_times m = Some ts \<and> (\<forall>t \<in> set ts. length t \<le> 5) \<longrightarrow>
      poll_medicine_matches now m = (\<exists>t \<in> set ts. take 5 t = time now)) \<and>
   (length (meeting_time g) \<le> 5 \<longrightarrow>
      poll_meeting_matches now g = meeting_shouldTrigger now g)"
proof -
  have 1: "db_available e \<longrightarrow>
      triggerLog (checkAndSendAlarms e now s) =
        triggerLog s
        @ [(Alarm, alarm_id a). a \<leftarrow> filter alarm_isActive (alarms s), alarm_shouldTrigger now a]
        @ concat (map (\<lambda>m. case med_times m of
                              Some ts \<Rightarrow> [(Medicine, med_id m). t \<leftarrow> ts, take 5 t = time now]
                            | None \<Rightarrow> [])
                    (filter med_isActive (medicines s)))
        @ [(Meeting, meeting_id g). g \<leftarrow> filter meeting_enabled (meetings s),
             meeting_shouldTrigger now g]"
    using tick_all_fired[of e now s] by blast
  have 2: "meeting_shouldTrigger now g = (take 5 (meeting_time g) = time now \<and> meeting_date g = date now)"
    by (simp add: meeting_shouldTrigger_def)
  show ?thesis
    using 1 2 server_alarm_cases[of a now ds] poll_fresh_alarm[of now nowMs a db]
      poll_fresh_medicine[of now nowMs m db] poll_fresh_meeting[of now nowMs g db]
      client_alarm_agrees[of a now] client_medicine_agrees[of m ts now]
      client_meeting_agrees[of g now]
    by blast
qed

theorem due_decisions_witness:
  "db_available env_ABC \<and>
   triggerLog (checkAndSendAlarms env_ABC monday_0700 server_busy) =
     [(Alarm, 7), (Alarm, 8), (Medicine, 3), (Meeting, 5)] \<and>
   alarm_shouldTrigger monday_0700 flight_alarm \<and>
   alarm_shouldTrigger monday_0700 gym_alarm \<and> poll_alarm_matches monday_0700 gym_alarm \<and>
   alarm_shouldTrigger monday_0700 plain_alarm \<and>
   poll_medicine_matches monday_0700 pills \<and>
   meeting_shouldTrigger monday_0700 standup \<and> poll_meeting_matches monday_0700 standup"
proof -
  have db: "db_available env_ABC" by (simp add: db_available_def env_ABC_def)
  have f: "truthy (alarm_date flight_alarm)"
    "take 5 (alarm_time flight_alarm) = time monday_0700 \<and>
     alarm_date flight_alarm = Some (date monday_0700)"
    by (simp_all add: flight_alarm_def monday_0700_def)
  have g: "\<not> truthy (alarm_date gym_alarm) \<and> alarm_days gym_alarm = Some [''Mon'', ''Wed'']
        \<and> [''Mon'', ''Wed''] \<noteq> []"
    "length (alarm_time gym_alarm) \<le> 5 \<and> date monday_0700 \<noteq> []"
    "take 5 (alarm_time gym_alarm) = time monday_0700 \<and> day monday_0700 \<in> set [''Mon'', ''Wed'']"
    by (simp_all add: gym_alarm_def monday_0700_def)
  have n: "\<not> truthy (alarm_date plain_alarm) \<and>
       (alarm_days plain_alarm = None \<or> alarm_days plain_alarm = Some [])"
    "take 5 (alarm_time plain_alarm) = time monday_0700"
    by (simp_all add: plain_alarm_def monday_0700_def)
  have p: "med_times pills = Some [''07:00'', ''19:00''] \<and>
        (\<forall>t \<in> set [''07:00'', ''19:00'']. length t \<le> 5)"
    "\<exists>t \<in> set [''07:00'', ''19:00'']. take 5 t = time monday_0700"
    by (simp_all add: pills_def monday_0700_def)
  have m: "length (meeting_time standup) \<le> 5"
     "take 5 (meeting_time standup) = time monday_0700 \<and> meeting_date standup = date monday_0700"
    by (simp_all add: standup_def monday_0700_def)
  note t = due_decisions[where e = env_ABC and now = monday_0700 and s = server_busy
      and g = standup and m = pills and ts = "[''07:00'', ''19:00'']"]
  note t1 = t[where a = gym_alarm and ds = "[''Mon'', ''Wed'']"]
  have 1: "triggerLog (checkAndSendAlarms env_ABC monday_0700 server_busy) =
     [(Alarm, 7), (Alarm, 8), (Medicine, 3), (Meeting, 5)]"
    using db t1[THEN conjunct1]
    by (simp add: example_defs alarm_shouldTrigger_def meeting_shouldTrigger_def)
  have 2: "alarm_shouldTrigger monday_0700 flight_alarm"
    using f t[where a = flight_alarm, THEN conjunct2, THEN conjunct1] by blast
  have 3: "alarm_shouldTrigger monday_0700 gym_alarm \<and> poll_alarm_matches monday_0700 gym_alarm"
    using g t1 by blast
  have 4: "alarm_shouldTrigger monday_0700 plain_alarm"
    using n t[where a = plain_alarm] by blast
  have 5: "poll_medicine_matches monday_0700 pills" using p t1 by blast
  have 6: "meeting_shouldTrigger monday_0700 standup \<and> poll_meeting_matches monday_0700 standup"
    using m t1 by blast
  show ?thesis using db 1 2 3 4 5 6 by blast
qed

text \<open>
  Against C1 as stated: the alarm with a date (5 January) and recurring days (Monday), one
  week after its date. The scheduler does not fire it, the polling loop does.
\<close>

theorem client_disagrees_counterexample:
  "alarm_isActive both_alarm \<and> truthy (alarm_date both_alarm) \<and>
   date next_monday_0700 \<noteq> the (alarm_date both_alarm) \<and>
   \<not> alarm_shouldTrigger next_monday_0700 both_alarm \<and>
   poll_alarm_matches next_monday_0700 both_alarm"
  by (simp add: both_alarm_def next_monday_0700_def alarm_shouldTrigger_def
      poll_alarm_matches_def poll_isDateMatch_def)

section \<open>Properties of the client trigger coordinator\<close>

subsection \<open>The deduplication gate\<close>

lemma deliver_char:
  "deliver tr nowMs s =
     (if recently_triggered s (trigger_key tr) nowMs then s
      else s\<lparr>lastTriggered := (lastTriggered s)(trigger_key tr \<mapsto> nowMs),
             presentLog := presentLog s @ [(trigger_kind tr, trigger_item tr)],
             activeAlarmPopup :=
               Some \<lparr>popup_id = trigger_item tr, popup_type = trigger_kind tr,
                     popup_isDateAlarm = trigger_isDateAlarm tr\<rparr>\<rparr>)"
  by (cases tr)
     (simp_all add: triggerFromPushData_def triggerAlarm_def isDedupBlocked_def
       recently_triggered_def trigger_key_def Let_def)

text \<open>
  C2, as the code has it. Two triggers for the same kind and item, whichever of the two paths
  each of them took, the second arriving less than 60000 ms after the first (and the first
  not at time 0, which the gate would read as no entry), start at most one presentation. When
  the gate holds no entry for that kind and item younger than 60 seconds at the first
  trigger, the first trigger starts the one presentation and the second leaves the whole
  client state as it was, so no popup and no log entry is created for it. When the gate
  holds such an entry, the first trigger is discarded without refreshing the entry, and the
  second is presented exactly if the entry is 60 seconds old or older when it arrives.
\<close>

theorem duplicate_triggers_start_at_most_one:
  assumes same: "trigger_kind tr1 = trigger_kind tr2" "trigger_item tr1 = trigger_item tr2"
    and near: "t2 - t1 < 60000" and nz: "t1 \<noteq> 0"
  shows "length (presentLog (deliver tr2 t2 (deliver tr1 t1 s))) \<le> length (presentLog s) + 1 \<and>
    (\<not> recently_triggered s (trigger_key tr1) t1 \<longrightarrow>
       presentLog (deliver tr1 t1 s) = presentLog s @ [(trigger_kind tr1, trigger_item tr1)] \<and>
       deliver tr2 t2 (deliver tr1 t1 s) = deliver tr1 t1 s) \<and>
    (recently_triggered s (trigger_key tr1) t1 \<longrightarrow>
       deliver tr1 t1 s = s \<and>
       presentLog (deliver tr2 t2 (deliver tr1 t1 s)) =
         presentLog s @
         (if recently_triggered s (trigger_key tr1) t2 then []
          else [(trigger_kind tr1, trigger_item tr1)]))"
proof -
  have k: "trigger_key tr2 = trigger_key tr1" using same by (simp add: trigger_key_def)
  show ?thesis
  proof (cases "recently_triggered s (trigger_key tr1) t1")
    case True
    then have "deliver tr1 t1 s = s" by (simp add: deliver_char)
    then show ?thesis using True same by (simp add: deliver_char[of tr2] k)
  next
    case False
    let ?s1 = "deliver tr1 t1 s"
    have l: "lastTriggered ?s1 (trigger_key tr1) = Some t1" using False by (simp add: deliver_char)
    have "recently_triggered ?s1 (trigger_key tr2) t2"
      using l near nz by (simp add: recently_triggered_def k)
    then have "deliver tr2 t2 ?s1 = ?s1" by (simp add: deliver_char[of tr2])
    then show ?thesis using False by (simp add: deliver_char[of tr1])
  qed
qed

theorem duplicate_triggers_start_at_most_one_witness:
  "trigger_kind (FromPoll Alarm 7 True) = trigger_kind (FromPush (push_data_of (alarm_payload flight_alarm))) \<and>
   trigger_item (FromPoll Alarm 7 True) = trigger_item (FromPush (push_data_of (alarm_payload flight_alarm))) \<and>
   presentLog (deliver (FromPush (push_data_of (alarm_payload flight_alarm))) (ms_0700 + 2000)
                (deliver (FromPoll Alarm 7 True) ms_0700 fresh_client)) = [(Alarm, 7)] \<and>
   presentLog (deliver (FromPoll Alarm 7 True) (ms_0700 + 2000)
                (deliver (FromPush (push_data_of (alarm_payload flight_alarm))) ms_0700 fresh_client)) = [(Alarm, 7)] \<and>
   presentLog (deliver (FromPush (push_data_of (alarm_payload flight_alarm))) (ms_0700 + 52000)
                (deliver (FromPoll Alarm 7 True) (ms_0700 + 50000)
                   (deliver (FromPoll Alarm 7 True) ms_0700 fresh_client))) = [(Alarm, 7)]"
proof -
  let ?poll = "FromPoll Alarm 7 True"
  let ?push = "FromPush (push_data_of (alarm_payload flight_alarm))"
  let ?s1 = "deliver ?poll ms_0700 fresh_client"
  have k: "trigger_kind ?poll = trigger_kind ?push" "trigger_item ?poll = trigger_item ?push"
    by (simp_all add: push_data_of_def alarm_payload_def flight_alarm_def push_alarmKind_def
        push_item_id_def)
  have f: "\<And>key. \<not> recently_triggered fresh_client key ms_0700"
    by (simp add: recently_triggered_def fresh_client_def initial_client_def)
  have t: "(ms_0700 + 2000) - ms_0700 < 60000" "ms_0700 \<noteq> 0" by (simp_all add: ms_0700_def)
  have t': "(ms_0700 + 52000) - (ms_0700 + 50000) < 60000" "ms_0700 + 50000 \<noteq> 0"
    by (simp_all add: ms_0700_def)
  have p: "presentLog fresh_client = []" by (simp add: fresh_client_def initial_client_def)
  have s1: "presentLog ?s1 = [(Alarm, 7)]"
    "lastTriggered ?s1 (trigger_key ?poll) = Some ms_0700"
    using f by (simp_all add: deliver_char p)
  have r: "recently_triggered ?s1 (trigger_key ?poll) (ms_0700 + 50000)"
    "recently_triggered ?s1 (trigger_key ?poll) (ms_0700 + 52000)"
    using s1(2) by (simp_all add: recently_triggered_def ms_0700_def)
  have 1: "presentLog (deliver ?push (ms_0700 + 2000) (deliver ?poll ms_0700 fresh_client)) = [(Alarm, 7)]"
    using f p duplicate_triggers_start_at_most_one[OF k t, of fresh_client] by simp
  have 2: "presentLog (deliver ?poll (ms_0700 + 2000) (deliver ?push ms_0700 fresh_client)) = [(Alarm, 7)]"
    using f p k duplicate_triggers_start_at_most_one[OF k[symmetric] t, of fresh_client] by simp
  have 3: "presentLog (deliver ?push (ms_0700 + 52000) (deliver ?poll (ms_0700 + 50000) ?s1)) = [(Alarm, 7)]"
  proof -
    note d = duplicate_triggers_start_at_most_one[OF k t', of ?s1, THEN conjunct2, THEN conjunct2]
    from d r(1) have "presentLog (deliver ?push (ms_0700 + 52000) (deliver ?poll (ms_0700 + 50000) ?s1)) =
         presentLog ?s1 @
         (if recently_triggered ?s1 (trigger_key ?poll) (ms_0700 + 52000) then []
          else [(trigger_kind ?poll, trigger_item ?poll)])"
      by blast
    then show ?thesis unfolding s1(1) using r(2) by (simp only: if_True append_Nil2)
  qed
  show ?thesis using k 1 2 3 by simp
qed

text \<open>
  Against C2 as stated. The dose of medicine 4 at 07:00 is triggered at 07:00:58; the polling
  trigger at 07:01:00 and the push trigger at 07:01:02 for the dose at 07:01 are two seconds
  apart and neither is presented. And after a trigger for alarm 7 at 07:00:00, of two further
  triggers at 07:00:50 and 07:01:10, twenty seconds apart, the earlier is discarded and the
  later is the one presented.
\<close>

theorem duplicate_triggers_counterexample:
  "trigger_kind (FromPoll Medicine 4 False) =
     trigger_kind (FromPush (push_data_of (medicine_payload drops))) \<and>
   trigger_item (FromPoll Medicine 4 False) =
     trigger_item (FromPush (push_data_of (medicine_payload drops))) \<and>
   presentLog (deliver (FromPoll Medicine 4 False) (ms_0700 + 58000) fresh_client) = [(Medicine, 4)] \<and>
   presentLog
     (deliver (FromPush (push_data_of (medicine_payload drops))) (ms_0700 + 62000)
        (deliver (FromPoll Medicine 4 False) (ms_0700 + 60000)
           (deliver (FromPoll Medicine 4 False) (ms_0700 + 58000) fresh_client))) = [(Medicine, 4)] \<and>
   presentLog
     (deliver (FromPoll Alarm 7 True) (ms_0700 + 50000)
        (deliver (FromPoll Alarm 7 True) ms_0700 fresh_client)) = [(Alarm, 7)] \<and>
   presentLog
     (deliver (FromPush (push_data_of (alarm_payload flight_alarm))) (ms_0700 + 70000)
        (deliver (FromPoll Alarm 7 True) (ms_0700 + 50000)
           (deliver (FromPoll Alarm 7 True) ms_0700 fresh_client))) = [(Alarm, 7), (Alarm, 7)]"
  by (simp add: triggerAlarm_def triggerFromPushData_def isDedupBlocked_def dedup_key_def
      string_of_int_def push_data_of_def push_alarmKind_def push_item_id_def alarm_payload_def
      medicine_payload_def fresh_client_def initial_client_def ms_0700_def drops_def
      flight_alarm_def Let_def)

text \<open>
  C7, as the code has it. The key handed to the gate is the kind, a hyphen and the item id;
  the firing time is not part of it. A push message relayed from the scheduler's payload for
  an item with a non-zero id has the same key as a polling trigger for that item. The gate
  looks up and records exactly this key.
\<close>

theorem dedup_key_composition:
  "trigger_key (FromPoll k i b) = kind_str k @ ''-'' @ string_of_int i \<and>
   (i \<noteq> 0 \<and> pp_type p = k \<and> pp_id p = Some i \<longrightarrow>
      trigger_key (FromPush (push_data_of p)) = trigger_key (FromPoll k i b)) \<and>
   deliver tr nowMs s =
     (if recently_triggered s (trigger_key tr) nowMs then s
      else s\<lparr>lastTriggered := (lastTriggered s)(trigger_key tr \<mapsto> nowMs),
             presentLog := presentLog s @ [(trigger_kind tr, trigger_item tr)],
             activeAlarmPopup :=
               Some \<lparr>popup_id = trigger_item tr, popup_type = trigger_kind tr,
                     popup_isDateAlarm = trigger_isDateAlarm tr\<rparr>\<rparr>)"
proof -
  have 1: "trigger_key (FromPoll k i b) = kind_str k @ ''-'' @ string_of_int i"
    by (simp add: trigger_key_def dedup_key_def)
  have 2: "i \<noteq> 0 \<and> pp_type p = k \<and> pp_id p = Some i \<longrightarrow>
      trigger_key (FromPush (push_data_of p)) = trigger_key (FromPoll k i b)"
    by (cases k) (auto simp: trigger_key_def push_data_of_def push_alarmKind_def push_item_id_def)
  show ?thesis using 1 2 deliver_char[of tr nowMs s] by blast
qed

theorem dedup_key_composition_witness:
  "trigger_key (FromPoll Alarm 7 True) = ''alarm-7'' \<and>
   trigger_key (FromPush (push_data_of (alarm_payload flight_alarm))) = ''alarm-7''"
proof -
  have "(7::int) \<noteq> 0 \<and> pp_type (alarm_payload flight_alarm) = Alarm \<and>
        pp_id (alarm_payload flight_alarm) = Some 7"
    by (simp add: alarm_payload_def flight_alarm_def)
  then show ?thesis
    using dedup_key_composition[of Alarm 7 True "alarm_payload flight_alarm"]
    by (simp add: string_of_int_def)
qed

text \<open>
  Against C7 as stated: the key of alarm 7 is not \<open>alarm-7-07:00\<close>; and the two doses of one
  medicine at 07:00 and 07:01 fall under one key: the first is presented at 07:00:58 and
  dismissed, and at 07:01:00 the polling loop finds the second dose due, calls the gate, and
  is blocked by the entry of the first.
\<close>

theorem dedup_key_without_time_counterexample:
  "trigger_key (FromPoll Alarm 7 True) \<noteq> ''alarm-7-07:00'' \<and>
   presentLog
     (poll monday_0701 (ms_0700 + 60000) [] [drops] []
        (release_processing
           (dismissAlarm monday_0700 (ms_0700 + 59000)
              (poll monday_0700 (ms_0700 + 58000) [] [drops] [] fresh_client)))) = [(Medicine, 4)]"
  apply (simp add: trigger_key_def dedup_key_def string_of_int_def)
  apply (simp add: poll_def poll_medicine_def poll_medicine_matches_def triggerAlarm_def
      isDedupBlocked_def dedup_key_def string_of_int_def fresh_client_def initial_client_def
      drops_def monday_0700_def monday_0701_def Let_def dismissAlarm_def release_processing_def
      markDismissed_def empty_offline_def ms_0700_def)
  done

section \<open>Properties of the offline store\<close>

lemma cursor_loop_filter:
  "cursor_loop today es st =
     filter (\<lambda>e. \<forall>x \<in> set es. dr_date (snd x) \<noteq> today \<longrightarrow> fst e \<noteq> fst x) st"
  by (induction es arbitrary: st) (auto simp: store_delete_def Let_def intro!: filter_cong)

text \<open>
  C9, as the code has it. On an opened database whose dismissal store has one record per key,
  the purge keeps exactly the records whose date is today's and deletes every other record,
  whether it is dated before today or after; the stores of alarms, medicines and meetings are
  left as they were. On a database that has not been opened the purge changes nothing.
\<close>

theorem purge_keeps_only_today:
  "(dbInstance db \<and> distinct (map fst (store_dismissed db)) \<longrightarrow>
      store_dismissed (clearExpiredDismissals today db) =
        filter (\<lambda>e. dr_date (snd e) = today) (store_dismissed db) \<and>
      store_alarms (clearExpiredDismissals today db) = store_alarms db \<and>
      store_medicines (clearExpiredDismissals today db) = store_medicines db \<and>
      store_meetings (clearExpiredDismissals today db) = store_meetings db \<and>
      dbInstance (clearExpiredDismissals today db)) \<and>
   (\<not> dbInstance db \<longrightarrow> clearExpiredDismissals today db = db)"
proof -
  have "store_dismissed (clearExpiredDismissals today db) =
        filter (\<lambda>e. dr_date (snd e) = today) (store_dismissed db)"
    if o: "dbInstance db" and d: "distinct (map fst (store_dismissed db))"
  proof -
    have inj: "inj_on fst (set (store_dismissed db))" using d by (simp add: distinct_map)
    have "filter (\<lambda>e. \<forall>x \<in> set (store_dismissed db). dr_date (snd x) \<noteq> today \<longrightarrow> fst e \<noteq> fst x)
            (store_dismissed db) = filter (\<lambda>e. dr_date (snd e) = today) (store_dismissed db)"
    proof (rule filter_cong[OF refl])
      fix e assume "e \<in> set (store_dismissed db)"
      then show "(\<forall>x \<in> set (store_dismissed db). dr_date (snd x) \<noteq> today \<longrightarrow> fst e \<noteq> fst x)
          = (dr_date (snd e) = today)"
        using inj by (auto dest: inj_onD)
    qed
    then show ?thesis using o by (simp add: clearExpiredDismissals_def cursor_loop_filter)
  qed
  then show ?thesis by (simp add: clearExpiredDismissals_def)
qed

theorem purge_keeps_only_today_witness:
  "dbInstance offline_three_days \<and> distinct (map fst (store_dismissed offline_three_days)) \<and>
   map fst (store_dismissed (clearExpiredDismissals ''2026-11-03'' offline_three_days)) =
     [''alarm-7-07:00-2026-11-03''] \<and>
   store_alarms (clearExpiredDismissals ''2026-11-03'' offline_three_days) = [(7, flight_alarm)] \<and>
   clearExpiredDismissals ''2026-11-03'' (offline_three_days\<lparr>dbInstance := False\<rparr>) =
     offline_three_days\<lparr>dbInstance := False\<rparr>"
proof -
  have a: "dbInstance offline_three_days"
    by (simp add: offline_three_days_def empty_offline_def)
  have b: "distinct (map fst (store_dismissed offline_three_days))"
    by (simp add: offline_three_days_def empty_offline_def)
  have c: "clearExpiredDismissals ''2026-11-03'' (offline_three_days\<lparr>dbInstance := False\<rparr>) =
     offline_three_days\<lparr>dbInstance := False\<rparr>"
    using purge_keeps_only_today[of "offline_three_days\<lparr>dbInstance := False\<rparr>" "''2026-11-03''"]
    by simp
  show ?thesis
    using a b c purge_keeps_only_today[of offline_three_days "''2026-11-03''"]
    by (simp add: offline_three_days_def empty_offline_def dismissal_on_def)
qed

text \<open>
  Against C9 as stated: the record dated 4 November, a date after today's 3 November, is in
  the store before the purge and gone after it.
\<close>

theorem purge_removes_later_date_counterexample:
  "''2026-11-03'' < ''2026-11-04'' \<and>
   map_of (store_dismissed offline_three_days) ''alarm-7-07:00-2026-11-04'' =
     Some (dismissal_on ''2026-11-04'') \<and>
   map_of (store_dismissed (clearExpiredDismissals ''2026-11-03'' offline_three_days))
     ''alarm-7-07:00-2026-11-04'' = None"
  by (simp add: offline_three_days_def empty_offline_def dismissal_on_def
      clearExpiredDismissals_def store_delete_def)

section \<open>Properties of the polling loop and of dismissals\<close>

subsection \<open>What the polling loop presents\<close>

lemma adds_only_refl: "adds_only A s s"
  by (simp add: adds_only_def)

lemma adds_only_trans: "adds_only A s s1 \<Longrightarrow> adds_only A s1 s2 \<Longrightarrow> adds_only A s s2"
  by (auto simp: adds_only_def)

lemma adds_only_mono: "adds_only A s s' \<Longrightarrow> A \<subseteq> B \<Longrightarrow> adds_only B s s'"
  by (auto simp: adds_only_def)

lemma adds_only_fold:
  assumes "\<And>x s. x \<in> set xs \<Longrightarrow> adds_only A s (f x s)"
  shows "adds_only A s (fold f xs s)"
  using assms
proof (induction xs arbitrary: s)
  case Nil
  show ?case by (simp add: adds_only_refl)
next
  case (Cons x xs)
  have "adds_only A s (f x s)" using Cons.prems by simp
  moreover have "adds_only A (f x s) (fold f xs (f x s))" using Cons by simp
  ultimately show ?case using adds_only_trans by fastforce
qed

lemma triggerAlarm_adds: "adds_only {(k, i)} s (triggerAlarm i k d nowMs s)"
  by (simp add: adds_only_def triggerAlarm_def isDedupBlocked_def Let_def)

lemma poll_alarm_adds:
  "adds_only (if alarm_presentable now snap a then {(Alarm, alarm_id a)} else {}) s
     (poll_alarm now nowMs snap a s)"
  using triggerAlarm_adds[of Alarm "alarm_id a" s "poll_isDateMatch now a" nowMs]
  by (auto simp: poll_alarm_def alarm_presentable_def Let_def adds_only_def)

lemma poll_medicine_adds:
  "adds_only (if medicine_presentable now snap m then {(Medicine, med_id m)} else {}) s
     (poll_medicine now nowMs snap m s)"
  using triggerAlarm_adds[of Medicine "med_id m" s False nowMs]
  by (auto simp: poll_medicine_def medicine_presentable_def Let_def adds_only_def)

lemma poll_meeting_adds:
  "adds_only (if meeting_presentable now snap m then {(Meeting, meeting_id m)} else {}) s
     (poll_meeting now nowMs snap m s)"
  using triggerAlarm_adds[of Meeting "meeting_id m" s False nowMs]
  by (auto simp: poll_meeting_def meeting_presentable_def Let_def adds_only_def)

lemma poll_adds:
  "adds_only (presentable now s as ms gs) s (poll now nowMs as ms gs s)"
proof -
  let ?P = "presentable now s as ms gs"
  have a: "\<And>x t. x \<in> set as \<Longrightarrow> adds_only ?P t (poll_alarm now nowMs s x t)"
    by (rule adds_only_mono[OF poll_alarm_adds]) (auto simp: presentable_def)
  have m: "\<And>x t. x \<in> set ms \<Longrightarrow> adds_only ?P t (poll_medicine now nowMs s x t)"
    by (rule adds_only_mono[OF poll_medicine_adds]) (auto simp: presentable_def)
  have g: "\<And>x t. x \<in> set gs \<Longrightarrow> adds_only ?P t (poll_meeting now nowMs s x t)"
    by (rule adds_only_mono[OF poll_meeting_adds]) (auto simp: presentable_def)
  let ?s1 = "fold (poll_alarm now nowMs s) as s"
  let ?s2 = "fold (poll_medicine now nowMs s) ms ?s1"
  have 1: "adds_only ?P s ?s1" using a by (rule adds_only_fold)
  have 2: "adds_only ?P ?s1 ?s2" using m by (rule adds_only_fold)
  have 3: "adds_only ?P ?s2 (fold (poll_meeting now nowMs s) gs ?s2)" using g by (rule adds_only_fold)
  show ?thesis unfolding poll_def using 1 2 3 adds_only_trans by blast
qed

lemma adds_only_between: "adds_only A s s' \<Longrightarrow> set (presented_between s s') \<subseteq> A"
  by (auto simp: adds_only_def presented_between_def)

lemma fold_keeps:
  assumes "\<And>x s. x \<in> set xs \<Longrightarrow> g (f x s) = g s"
  shows "g (fold f xs s) = g s"
  using assms by (induction xs arbitrary: s) simp_all

lemma triggerAlarm_dismissed: "dismissed_of k (triggerAlarm i k' d nowMs s) = dismissed_of k s"
  by (cases k) (simp_all add: triggerAlarm_def isDedupBlocked_def Let_def)

lemma poll_alarm_dismissed:
  "dismissed_of k snap i = Some (time now) \<Longrightarrow>
   dismissed_of k (poll_alarm now nowMs snap a s) i = dismissed_of k s i"
  using triggerAlarm_dismissed[of k "alarm_id a" Alarm "poll_isDateMatch now a" nowMs s]
  by (cases k) (auto simp: poll_alarm_def Let_def)

lemma poll_medicine_dismissed:
  "dismissed_of k snap i = Some (time now) \<Longrightarrow>
   dismissed_of k (poll_medicine now nowMs snap m s) i = dismissed_of k s i"
  using triggerAlarm_dismissed[of k "med_id m" Medicine False nowMs s]
  by (cases k) (auto simp: poll_medicine_def Let_def)

lemma poll_meeting_dismissed:
  "dismissed_of k snap i = Some (time now) \<Longrightarrow>
   dismissed_of k (poll_meeting now nowMs snap m s) i = dismissed_of k s i"
  using triggerAlarm_dismissed[of k "meeting_id m" Meeting False nowMs s]
  by (cases k) (auto simp: poll_meeting_def Let_def)

lemma poll_dismissed:
  assumes "dismissed_of k s i = Some (time now)"
  shows "dismissed_of k (poll now nowMs as ms gs s) i = Some (time now)"
proof -
  let ?g = "\<lambda>t. dismissed_of k t i"
  have "?g (poll now nowMs as ms gs s) = ?g s"
    unfolding poll_def
    by (simp add: fold_keeps[where g = ?g] poll_alarm_dismissed[OF assms]
        poll_medicine_dismissed[OF assms] poll_meeting_dismissed[OF assms])
  then show ?thesis using assms by simp
qed

lemma dismissed_not_presentable:
  "dismissed_of k s i = Some (time now) \<Longrightarrow> (k, i) \<notin> presentable now s as ms gs"
  by (cases k)
     (auto simp: presentable_def alarm_presentable_def medicine_presentable_def
       meeting_presentable_def)

lemma run_polls_suppressed:
  assumes "dismissed_of k s i = Some T" and "\<forall>t \<in> set ticks. time (fst t) = T"
  shows "adds_only (- {(k, i)}) s (run_polls ticks s) \<and> dismissed_of k (run_polls ticks s) i = Some T"
  using assms
proof (induction ticks arbitrary: s)
  case Nil
  then show ?case by (simp add: adds_only_refl)
next
  case (Cons t ticks)
  obtain now nowMs as ms gs where t: "t = (now, nowMs, as, ms, gs)" by (cases t)
  have T: "time now = T" using Cons.prems t by simp
  let ?s1 = "poll now nowMs as ms gs s"
  have d: "dismissed_of k ?s1 i = Some T" using poll_dismissed[of k s i now] Cons.prems T by simp
  have "adds_only (presentable now s as ms gs) s ?s1" by (rule poll_adds)
  moreover have "presentable now s as ms gs \<subseteq> - {(k, i)}"
    using dismissed_not_presentable[of k s i now as ms gs] Cons.prems T by auto
  ultimately have 1: "adds_only (- {(k, i)}) s ?s1" by (rule adds_only_mono)
  have 2: "adds_only (- {(k, i)}) ?s1 (run_polls ticks ?s1) \<and>
           dismissed_of k (run_polls ticks ?s1) i = Some T"
    using Cons.IH[OF d] Cons.prems by simp
  show ?case using 1 2 t adds_only_trans by auto
qed

lemma map_of_store_put: "map_of (store_put k v st) k = Some v"
  by (induction st) auto

lemma dismissAlarm_records:
  assumes "\<not> isProcessing s" "activeAlarmPopup s = Some p"
  shows "dismissed_of (popup_type p) (dismissAlarm now nowMs s) (popup_id p) = Some (time now)"
    and "activeAlarmPopup (dismissAlarm now nowMs s) = None"
    and "presentLog (dismissAlarm now nowMs s) = presentLog s"
    and "offline (dismissAlarm now nowMs s) =
           markDismissed (kind_str (popup_type p)) (popup_id p) (time now) (date now) nowMs (offline s)"
    and "storeRequests (dismissAlarm now nowMs s) =
           storeRequests s @
           (if popup_type p = Alarm \<and> popup_isDateAlarm p then [(popup_id p, False)] else [])"
  using assms by (cases "popup_type p"; simp add: dismissAlarm_def Let_def)+

subsection \<open>Dismissals\<close>

lemma poll_presents_only_at_scheduled_time:
  "((Alarm, i) \<in> set (presented_between c (poll now' ms' as ms gs c)) \<longrightarrow>
      (\<exists>a \<in> set as. alarm_id a = i \<and> alarm_isActive a \<and> alarm_time a = time now' \<and>
         dismissedAlarms c i \<noteq> Some (time now'))) \<and>
   ((Medicine, i) \<in> set (presented_between c (poll now' ms' as ms gs c)) \<longrightarrow>
      (\<exists>m \<in> set ms. med_id m = i \<and> (\<exists>ts. med_times m = Some ts \<and> time now' \<in> set ts) \<and>
         dismissedMeds c i \<noteq> Some (time now'))) \<and>
   ((Meeting, i) \<in> set (presented_between c (poll now' ms' as ms gs c)) \<longrightarrow>
      (\<exists>g \<in> set gs. meeting_id g = i \<and> meeting_enabled g \<and> meeting_time g = time now' \<and>
         meeting_date g = date now' \<and> dismissedMeetings c i \<noteq> Some (time now')))"
proof -
  have sub: "set (presented_between c (poll now' ms' as ms gs c)) \<subseteq> presentable now' c as ms gs"
    by (rule adds_only_between[OF poll_adds])
  have a: "(Alarm, i) \<in> presentable now' c as ms gs \<Longrightarrow>
      (\<exists>a \<in> set as. alarm_id a = i \<and> alarm_isActive a \<and> alarm_time a = time now' \<and>
         dismissedAlarms c i \<noteq> Some (time now'))"
    by (auto simp: presentable_def alarm_presentable_def poll_alarm_matches_def Let_def)
  have m: "(Medicine, i) \<in> presentable now' c as ms gs \<Longrightarrow>
      (\<exists>m \<in> set ms. med_id m = i \<and> (\<exists>ts. med_times m = Some ts \<and> time now' \<in> set ts) \<and>
         dismissedMeds c i \<noteq> Some (time now'))"
    by (auto simp: presentable_def medicine_presentable_def poll_medicine_matches_def
        split: option.splits)
  have g: "(Meeting, i) \<in> presentable now' c as ms gs \<Longrightarrow>
      (\<exists>g \<in> set gs. meeting_id g = i \<and> meeting_enabled g \<and> meeting_time g = time now' \<and>
         meeting_date g = date now' \<and> dismissedMeetings c i \<noteq> Some (time now'))"
    by (auto simp: presentable_def meeting_presentable_def poll_meeting_matches_def Let_def)
  show ?thesis using sub a m g by blast
qed

lemmas client_eval = poll_def poll_alarm_def poll_alarm_matches_def poll_isDateMatch_def
  poll_medicine_def poll_medicine_matches_def poll_meeting_def poll_meeting_matches_def
  triggerAlarm_def triggerFromPushData_def isDedupBlocked_def dedup_key_def string_of_int_def
  push_data_of_def push_alarmKind_def push_item_id_def alarm_payload_def meeting_payload_def
  dismissAlarm_def release_processing_def markDismissed_def
  fresh_client_def initial_client_def empty_offline_def ms_0700_def Let_def

lemma ringing_flight:
  "poll monday_0700 ms_0700 [flight_alarm] [] [] fresh_client =
     fresh_client\<lparr>lastTriggered := [''alarm-7'' \<mapsto> ms_0700],
       presentLog := [(Alarm, 7)],
       activeAlarmPopup := Some \<lparr>popup_id = 7, popup_type = Alarm, popup_isDateAlarm = True\<rparr>,
       activeAlarms := {7}\<rparr>"
  by (simp add: client_eval flight_alarm_def monday_0700_def)

text \<open>
  C8, as the code has it. Dismissing the popup at minute T records T for the item in the
  dismissal map of its kind, closes the popup and, when the offline database is open, stores
  a record with today's date under the key kind-id-T-date. Through any succession of polling
  runs whose clock still reads T, nothing is presented for that item. Moreover the polling
  loop presents an item only in a minute that equals the item's stored time (one of its
  times for a medicine, and on its date for a meeting) and only when no dismissal is recorded
  for it in that minute. Push triggers are not part of this statement: they pass through the
  dedup gate only.
\<close>

theorem dismissal_suppresses_polling:
  "(\<not> isProcessing s \<and> activeAlarmPopup s = Some p \<longrightarrow>
      dismissed_of (popup_type p) (dismissAlarm now nowMs s) (popup_id p) = Some (time now) \<and>
      activeAlarmPopup (dismissAlarm now nowMs s) = None \<and>
      (dbInstance (offline s) \<longrightarrow>
         map_of (store_dismissed (offline (dismissAlarm now nowMs s)))
           (kind_str (popup_type p) @ ''-'' @ string_of_int (popup_id p) @ ''-'' @ time now @ ''-'' @ date now)
         = Some \<lparr>dr_key = kind_str (popup_type p) @ ''-'' @ string_of_int (popup_id p) @ ''-''
                          @ time now @ ''-'' @ date now,
                 dr_type = kind_str (popup_type p), dr_id = popup_id p, dr_time = time now,
                 dr_date = date now, dr_dismissedAt = nowMs\<rparr>) \<and>
      (\<forall>ticks. (\<forall>t \<in> set ticks. time (fst t) = time now) \<longrightarrow>
         (popup_type p, popup_id p) \<notin>
           set (presented_between (dismissAlarm now nowMs s)
                  (run_polls ticks (dismissAlarm now nowMs s))))) \<and>
   ((Alarm, i) \<in> set (presented_between c (poll now' ms' as ms gs c)) \<longrightarrow>
      (\<exists>a \<in> set as. alarm_id a = i \<and> alarm_isActive a \<and> alarm_time a = time now' \<and>
         dismissedAlarms c i \<noteq> Some (time now'))) \<and>
   ((Medicine, i) \<in> set (presented_between c (poll now' ms' as ms gs c)) \<longrightarrow>
      (\<exists>m \<in> set ms. med_id m = i \<and> (\<exists>ts. med_times m = Some ts \<and> time now' \<in> set ts) \<and>
         dismissedMeds c i \<noteq> Some (time now'))) \<and>
   ((Meeting, i) \<in> set (presented_between c (poll now' ms' as ms gs c)) \<longrightarrow>
      (\<exists>g \<in> set gs. meeting_id g = i \<and> meeting_enabled g \<and> meeting_time g = time now' \<and>
         meeting_date g = date now' \<and> dismissedMeetings c i \<noteq> Some (time now')))"
proof -
  let ?s' = "dismissAlarm now nowMs s"
  have A: "dismissed_of (popup_type p) ?s' (popup_id p) = Some (time now) \<and>
      activeAlarmPopup ?s' = None \<and>
      (dbInstance (offline s) \<longrightarrow>
         map_of (store_dismissed (offline ?s'))
           (kind_str (popup_type p) @ ''-'' @ string_of_int (popup_id p) @ ''-'' @ time now @ ''-'' @ date now)
         = Some \<lparr>dr_key = kind_str (popup_type p) @ ''-'' @ string_of_int (popup_id p) @ ''-''
                          @ time now @ ''-'' @ date now,
                 dr_type = kind_str (popup_type p), dr_id = popup_id p, dr_time = time now,
                 dr_date = date now, dr_dismissedAt = nowMs\<rparr>) \<and>
      (\<forall>ticks. (\<forall>t \<in> set ticks. time (fst t) = time now) \<longrightarrow>
         (popup_type p, popup_id p) \<notin> set (presented_between ?s' (run_polls ticks ?s')))"
    if h: "\<not> isProcessing s" "activeAlarmPopup s = Some p"
  proof -
    note r = dismissAlarm_records[OF h, of now nowMs]
    have 1: "dismissed_of (popup_type p) ?s' (popup_id p) = Some (time now)" by (rule r(1))
    have 3: "dbInstance (offline s) \<longrightarrow>
         map_of (store_dismissed (offline ?s'))
           (kind_str (popup_type p) @ ''-'' @ string_of_int (popup_id p) @ ''-'' @ time now @ ''-'' @ date now)
         = Some \<lparr>dr_key = kind_str (popup_type p) @ ''-'' @ string_of_int (popup_id p) @ ''-''
                          @ time now @ ''-'' @ date now,
                 dr_type = kind_str (popup_type p), dr_id = popup_id p, dr_time = time now,
                 dr_date = date now, dr_dismissedAt = nowMs\<rparr>"
      by (simp add: r(4) markDismissed_def Let_def map_of_store_put)
    have 4: "(popup_type p, popup_id p) \<notin> set (presented_between ?s' (run_polls ticks ?s'))"
      if "\<forall>t \<in> set ticks. time (fst t) = time now" for ticks
      using adds_only_between[of "- {(popup_type p, popup_id p)}" ?s' "run_polls ticks ?s'"]
        run_polls_suppressed[OF 1 that] by auto
    show ?thesis using 1 r(2) 3 4 by blast
  qed
  show ?thesis
    using A poll_presents_only_at_scheduled_time[of i c now' ms' as ms gs] by blast
qed

theorem dismissal_suppresses_polling_witness:
  "\<not> isProcessing (poll monday_0700 ms_0700 [flight_alarm] [] [] fresh_client) \<and>
   activeAlarmPopup (poll monday_0700 ms_0700 [flight_alarm] [] [] fresh_client) =
     Some \<lparr>popup_id = 7, popup_type = Alarm, popup_isDateAlarm = True\<rparr> \<and>
   dismissedAlarms
     (dismissAlarm monday_0700 (ms_0700 + 5000)
        (poll monday_0700 ms_0700 [flight_alarm] [] [] fresh_client)) 7 = Some ''07:00'' \<and>
   (Alarm, 7) \<notin>
     set (presented_between
            (dismissAlarm monday_0700 (ms_0700 + 5000)
               (poll monday_0700 ms_0700 [flight_alarm] [] [] fresh_client))
            (run_polls [(monday_0700, ms_0700 + 6000, [flight_alarm], [], []),
                        (monday_0700, ms_0700 + 7000, [flight_alarm], [], [])]
               (dismissAlarm monday_0700 (ms_0700 + 5000)
                  (poll monday_0700 ms_0700 [flight_alarm] [] [] fresh_client)))) \<and>
   presented_between fresh_client (poll monday_0700 ms_0700 [flight_alarm] [pills] [standup] fresh_client) =
     [(Alarm, 7), (Medicine, 3), (Meeting, 5)] \<and>
   alarm_time flight_alarm = time monday_0700 \<and>
   time monday_0700 \<in> set (the (med_times pills)) \<and>
   meeting_time standup = time monday_0700 \<and> meeting_date standup = date monday_0700"
proof -
  let ?s = "poll monday_0700 ms_0700 [flight_alarm] [] [] fresh_client"
  let ?p = "\<lparr>popup_id = 7, popup_type = Alarm, popup_isDateAlarm = True\<rparr>"
  let ?ticks = "[(monday_0700, ms_0700 + 6000, [flight_alarm], [], []),
                 (monday_0700, ms_0700 + 7000, [flight_alarm], [], [])]"
  let ?all = "poll monday_0700 ms_0700 [flight_alarm] [pills] [standup] fresh_client"
  have h: "\<not> isProcessing ?s \<and> activeAlarmPopup ?s = Some ?p"
    by (simp add: ringing_flight) (simp add: fresh_client_def initial_client_def)
  have t: "\<forall>t \<in> set ?ticks. time (fst t) = time monday_0700" by simp
  have m: "time monday_0700 = ''07:00''" by (simp add: monday_0700_def)
  have pb: "presented_between fresh_client ?all = [(Alarm, 7), (Medicine, 3), (Meeting, 5)]"
    by (simp add: presented_between_def client_eval flight_alarm_def pills_def standup_def
        monday_0700_def)
  note d = dismissal_suppresses_polling[where s = ?s and p = ?p and now = monday_0700
      and nowMs = "ms_0700 + 5000" and c = fresh_client and now' = monday_0700 and ms' = ms_0700
      and as = "[flight_alarm]" and ms = "[pills]" and gs = "[standup]"]
  have first: "\<not> isProcessing ?s \<and> activeAlarmPopup ?s = Some ?p \<and>
      dismissedAlarms (dismissAlarm monday_0700 (ms_0700 + 5000) ?s) 7 = Some ''07:00'' \<and>
      (Alarm, 7) \<notin> set (presented_between (dismissAlarm monday_0700 (ms_0700 + 5000) ?s)
            (run_polls ?ticks (dismissAlarm monday_0700 (ms_0700 + 5000) ?s)))"
    using h t m d[where i = 7, THEN conjunct1]
    by (auto simp del: run_polls.simps)
  have a: "alarm_time flight_alarm = time monday_0700"
    using pb d[where i = 7, THEN conjunct2, THEN conjunct1] by auto
  have b: "time monday_0700 \<in> set (the (med_times pills))"
    using pb d[where i = 3, THEN conjunct2, THEN conjunct2, THEN conjunct1] by auto
  have c: "meeting_time standup = time monday_0700 \<and> meeting_date standup = date monday_0700"
    using pb d[where i = 5, THEN conjunct2, THEN conjunct2, THEN conjunct2] by auto
  show ?thesis using first pb a b c by blast
qed

text \<open>
  Against C8 as stated: the date alarm 7 rings at 07:00:00 from the polling loop and is
  dismissed five seconds later, which records the dismissal in memory and in the offline
  store; the push message of the same occurrence, arriving 61 seconds after the first
  trigger, is presented again.
\<close>

theorem push_after_dismissal_counterexample:
  "presentLog
     (dismissAlarm monday_0700 (ms_0700 + 5000)
        (poll monday_0700 ms_0700 [flight_alarm] [] [] fresh_client)) = [(Alarm, 7)] \<and>
   dismissedAlarms
     (dismissAlarm monday_0700 (ms_0700 + 5000)
        (poll monday_0700 ms_0700 [flight_alarm] [] [] fresh_client)) 7 = Some ''07:00'' \<and>
   map fst (store_dismissed (offline
     (dismissAlarm monday_0700 (ms_0700 + 5000)
        (poll monday_0700 ms_0700 [flight_alarm] [] [] fresh_client)))) = [''alarm-7-07:00-2026-01-05''] \<and>
   presentLog
     (triggerFromPushData (push_data_of (alarm_payload flight_alarm)) (ms_0700 + 61000)
        (dismissAlarm monday_0700 (ms_0700 + 5000)
           (poll monday_0700 ms_0700 [flight_alarm] [] [] fresh_client))) = [(Alarm, 7), (Alarm, 7)] \<and>
   activeAlarmPopup
     (triggerFromPushData (push_data_of (alarm_payload flight_alarm)) (ms_0700 + 61000)
        (dismissAlarm monday_0700 (ms_0700 + 5000)
           (poll monday_0700 ms_0700 [flight_alarm] [] [] fresh_client))) =
     Some \<lparr>popup_id = 7, popup_type = Alarm, popup_isDateAlarm = False\<rparr>"
  by (simp add: client_eval flight_alarm_def monday_0700_def)

subsection \<open>Dismissing a one-shot item\<close>


lemma due_kind_alarm: "d \<in> set (due_alarms now as) \<Longrightarrow> fst d = Alarm"
  by (induction as) (auto simp: due_alarms_def)




























end
